theory Spec2Isabelle
  imports Complex_Main "HOL-Library.Log_Nat" "HOL-Library.Sublist"
begin

section \<open>Numbers\<close>

text \<open>
  The scorer works on Python floats. A float is modelled by the rational number it
  denotes, and every arithmetic operation takes a \<^emph>\<open>rounding\<close>: the function that maps
  the exact result to the value the operation returns. \<open>exact\<close> is arithmetic without
  rounding; \<open>binary64\<close> is IEEE 754 double precision with round-to-nearest, ties to even,
  which is what CPython floats are. Infinities, NaN and overflow are outside the model:
  \<open>binary64\<close> has no largest exponent.
\<close>

type_synonym rounding = "rat \<Rightarrow> rat"

definition exact :: rounding where
  "exact x = x"

text \<open>The nearest integer, a tie going to the even neighbour.\<close>

definition round_half_even :: "rat \<Rightarrow> int" where
  "round_half_even x =
     (let f = \<lfloor>x\<rfloor>; d = x - of_int f
      in if d < 1 / 2 then f else if 1 / 2 < d then f + 1 else if even f then f else f + 1)"

text \<open>\<open>ilog2 x\<close> is the binary exponent of \<open>x \<noteq> 0\<close>: the
    \<open>e\<close> with \<open>2\<^sup>e \<le> \<bar>x\<bar> < 2\<^sup>e\<^sup>+\<^sup>1\<close>.\<close>

definition ilog2 :: "rat \<Rightarrow> int" where
  "ilog2 x =
     (let (p, q) = quotient_of \<bar>x\<bar>; d = bitlen p - bitlen q
      in if 2 powi d \<le> \<bar>x\<bar> then d else d - 1)"

text \<open>
  A double has 53 significant bits, so the spacing of the doubles around \<open>x\<close> is
  \<open>2\<^sup>e\<^sup>-\<^sup>5\<^sup>2\<close> for the exponent \<open>e\<close> of \<open>x\<close>,
      and \<open>2\<^sup>-\<^sup>1\<^sup>0\<^sup>7\<^sup>4\<close> in the subnormal range.
\<close>

definition binary64 :: rounding where
  "binary64 x =
     (if x = 0 then 0
      else let e = max (ilog2 x) (- 1022) - 52
           in of_int (round_half_even (x / 2 powi e)) * 2 powi e)"

subsection \<open>Python built-ins\<close>

datatype py_error = ZeroDivisionError

text \<open>\<open>int(x)\<close> of a float truncates towards zero.\<close>

definition py_int :: "rat \<Rightarrow> int" where
  "py_int x = (if 0 \<le> x then \<lfloor>x\<rfloor> else \<lceil>x\<rceil>)"

text \<open>\<open>round(x)\<close> of a float returns the nearest \<open>int\<close>, ties to even.\<close>

definition py_round :: "rat \<Rightarrow> int" where
  "py_round x = round_half_even x"

text \<open>
  \<open>round(x, ndigits)\<close> of a float: the exact value of \<open>x\<close> is rounded to \<open>ndigits\<close>
  decimals (ties to even) and the decimal is converted back to a float.
\<close>

definition py_round_ndigits :: "rounding \<Rightarrow> rat \<Rightarrow> nat \<Rightarrow> rat" where
  "py_round_ndigits rnd x ndigits =
     rnd (of_int (round_half_even (x * 10 ^ ndigits)) / 10 ^ ndigits)"

text \<open>
  \<open>sum(xs)\<close> starts from \<open>0\<close> and adds the elements from left to right, rounding each
  partial sum. (From CPython 3.12 on, the sum of floats carries a correction term; it
  vanishes when the partial sums are exact, as they are for integer scores.)
\<close>

definition py_sum :: "rounding \<Rightarrow> rat list \<Rightarrow> rat" where
  "py_sum rnd xs = foldl (\<lambda>acc x. rnd (acc + x)) 0 xs"

text \<open>\<open>a / b\<close> with \<open>b\<close> an \<open>int\<close>: raises on \<open>b = 0\<close>.\<close>

definition py_truediv :: "rounding \<Rightarrow> rat \<Rightarrow> int \<Rightarrow> py_error + rat" where
  "py_truediv rnd a b = (if b = 0 then Inl ZeroDivisionError else Inr (rnd (a / of_int b)))"

text \<open>
  \<open>xs[start:stop]\<close>: a negative index counts from the end, and both indices are clamped
  to the list.
\<close>

definition slice_index :: "nat \<Rightarrow> int \<Rightarrow> nat" where
  "slice_index n i = (if i < 0 then nat (max (i + int n) 0) else min (nat i) n)"

definition py_slice :: "'a list \<Rightarrow> int \<Rightarrow> int \<Rightarrow> 'a list" where
  "py_slice xs start stop =
     (let n = length xs; lo = slice_index n start; hi = slice_index n stop
      in take (hi - lo) (drop lo xs))"

text \<open>\<open>str(i)\<close> of an \<open>int\<close>: its decimal digits, with a minus sign when negative.\<close>

definition digit_char :: "nat \<Rightarrow> char" where
  "digit_char n = char_of (48 + n)"

fun str_nat :: "nat \<Rightarrow> string" where
  "str_nat n = (if n < 10 then [digit_char n] else str_nat (n div 10) @ [digit_char (n mod 10)])"

declare str_nat.simps [simp del]

definition str_int :: "int \<Rightarrow> string" where
  "str_int i = (if i < 0 then CHR ''-'' # str_nat (nat (- i)) else str_nat (nat i))"

section \<open>Robust scorer: \<open>calculate_final_scores.py\<close>\<close>

text \<open>
  \<open>calculate_trimmed_mean(scores, trim_percent)\<close>. The literal \<open>0.10\<close> of the default
  argument is the float \<open>rnd (1 / 10)\<close>.
\<close>

definition trim_percent_default :: "rounding \<Rightarrow> rat" where
  "trim_percent_default rnd = rnd (1 / 10)"

definition trim_count :: "rounding \<Rightarrow> nat \<Rightarrow> rat \<Rightarrow> int" where
  "trim_count rnd n trim_percent = py_int (rnd (of_nat n * trim_percent))"

definition calculate_trimmed_mean :: "rounding \<Rightarrow> rat list \<Rightarrow> rat \<Rightarrow> py_error + rat" where
  "calculate_trimmed_mean rnd scores trim_percent =
     (if scores = [] then Inr 0
      else
        let sorted_scores = sort scores;
            n = length sorted_scores;
            tc = trim_count rnd n trim_percent;
            trimmed_scores =
              (if tc > 0 then py_slice sorted_scores tc (- tc) else sorted_scores);
            trimmed_scores =
              (if trimmed_scores = [] then sorted_scores else trimmed_scores)
        in py_truediv rnd (py_sum rnd trimmed_scores) (int (length trimmed_scores)))"

text \<open>
  The final score of one row, as \<open>process_csv\<close> computes it from the row's scores:
  \<open>round(trimmed_mean * 10)\<close>.
\<close>

definition final_score :: "rounding \<Rightarrow> rat list \<Rightarrow> py_error + int" where
  "final_score rnd scores =
     (case calculate_trimmed_mean rnd scores (trim_percent_default rnd) of
        Inl e \<Rightarrow> Inl e
      | Inr trimmed_mean \<Rightarrow> Inr (py_round (rnd (trimmed_mean * 10))))"

text \<open>
  The arithmetic mean of a list as the float arithmetic computes it; in exact
  arithmetic it is \<open>sum_list xs / length xs\<close>.
\<close>

definition arithmetic_mean :: "rounding \<Rightarrow> rat list \<Rightarrow> rat" where
  "arithmetic_mean rnd xs = rnd (py_sum rnd xs / of_nat (length xs))"

section \<open>Aggregator: \<open>src/data_aggregator.py\<close>\<close>

text \<open>
  One entry of an OCR result's \<open>scores\<close> list. Every field is read with \<open>.get\<close>, so each
  may be absent (\<open>None\<close>).
\<close>

record score_data =
  sd_student_id :: "string option"
  sd_order :: "int option"
  sd_name :: "string option"
  sd_score :: "int option"

text \<open>
  An OCR result: \<open>success\<close>, \<open>file_name\<close> and the list \<open>data['scores']\<close>.
\<close>

record ocr_result =
  success :: bool
  file_name :: string
  data_scores :: "score_data list"

text \<open>A student of the master list.\<close>

record master_student =
  ms_order :: int
  ms_student_id :: string
  ms_name :: string

text \<open>The value the \<open>defaultdict\<close> holds for a key, and its default.\<close>

record info =
  info_order :: "int option"
  info_name :: "string option"
  info_scores :: "int option list"

definition default_info :: info where
  "default_info = \<lparr>info_order = None, info_name = None, info_scores = []\<rparr>"

text \<open>
  A key of \<open>student_scores\<close> is a student id, the string \<open>order_<n>\<close> of the privacy
  mode, or Python's \<open>None\<close> (an entry without a student id). The dictionary keeps its
  keys in insertion order.
\<close>

type_synonym key = "string option"

type_synonym student_scores = "(key \<times> info) list"

text \<open>
  \<open>self.student_scores[k]\<close> followed by a mutation \<open>f\<close> of the entry: the
  \<open>defaultdict\<close> creates a missing entry (at the end), and the entry is changed in place.
\<close>

fun modify :: "key \<Rightarrow> (info \<Rightarrow> info) \<Rightarrow> student_scores \<Rightarrow> student_scores" where
  "modify k f [] = [(k, f default_info)]"
| "modify k f ((k', v) # d) = (if k' = k then (k, f v) # d else (k', v) # modify k f d)"

text \<open>\<open>k in self.student_scores\<close>.\<close>

definition contains :: "student_scores \<Rightarrow> key \<Rightarrow> bool" where
  "contains d k = (k \<in> set (map fst d))"

record aggregator =
  student_scores :: student_scores
  processed_files :: "string list"
  has_master_list :: bool

definition load_master_list :: "aggregator \<Rightarrow> master_student list \<Rightarrow> aggregator" where
  "load_master_list self students =
     self\<lparr>student_scores :=
            foldl (\<lambda>d student.
                     modify (Some (ms_student_id student))
                       (\<lambda>i. i\<lparr>info_order := Some (ms_order student),
                               info_name := Some (ms_name student)\<rparr>) d)
              (student_scores self) students,
          has_master_list := True\<rparr>"

text \<open>
  \<open>DataAggregator(master_list)\<close>. The argument is \<open>None\<close> when no master list (or an
  empty dictionary) is passed, and \<open>Some students\<close> for a dictionary whose \<open>students\<close>
  entry is that list.
\<close>

definition init :: "master_student list option \<Rightarrow> aggregator" where
  "init master_list =
     (let self = \<lparr>student_scores = [], processed_files = [], has_master_list = False\<rparr>
      in case master_list of None \<Rightarrow> self | Some students \<Rightarrow> load_master_list self students)"

definition append_score :: "int option \<Rightarrow> info \<Rightarrow> info" where
  "append_score s i = i\<lparr>info_scores := info_scores i @ [s]\<rparr>"

text \<open>
  The body of the loop of \<open>add_ocr_result\<close> over \<open>data['scores']\<close>; the state is the
  dictionary with \<open>matched_count\<close> and \<open>unmatched_count\<close>.
\<close>

definition add_score_data ::
  "bool \<Rightarrow> bool \<Rightarrow> student_scores \<times> nat \<times> nat \<Rightarrow> score_data
      \<Rightarrow> student_scores \<times> nat \<times> nat"
where
  "add_score_data scores_only has_ml st score_data =
     (case st of (d, matched_count, unmatched_count) \<Rightarrow>
        let student_id = sd_student_id score_data;
            order = sd_order score_data
        in
          if student_id = None \<and> order \<noteq> None then
            let key = Some (''order_'' @ str_int (the order));
                d = modify key
                      (\<lambda>i. if info_order i = None
                           then i\<lparr>info_order := order, info_name := None\<rparr> else i) d;
                d = modify key (append_score (sd_score score_data)) d
            in (d, matched_count + 1, unmatched_count)
          else if scores_only \<and> has_ml then
            if contains d student_id then
              (modify student_id (append_score (sd_score score_data)) d,
               matched_count + 1, unmatched_count)
            else (d, matched_count, unmatched_count + 1)
          else
            let d = modify student_id
                      (\<lambda>i. if info_order i = None
                           then i\<lparr>info_order := order, info_name := sd_name score_data\<rparr>
                           else i) d;
                d = modify student_id (append_score (sd_score score_data)) d
            in (d, matched_count + 1, unmatched_count))"

definition merge_scores ::
  "bool \<Rightarrow> bool \<Rightarrow> student_scores \<Rightarrow> score_data list \<Rightarrow>
      student_scores \<times> nat \<times> nat"
where
  "merge_scores scores_only has_ml d scores =
     foldl (add_score_data scores_only has_ml) (d, 0, 0) scores"

text \<open>
  \<open>add_ocr_result(ocr_result, scores_only)\<close> returns the new state and the Boolean
  result. The two counts are only logged.
\<close>

definition add_ocr_result :: "aggregator \<Rightarrow> ocr_result \<Rightarrow> bool option \<Rightarrow>
    aggregator \<times> bool" where
  "add_ocr_result self ocr scores_only_arg =
     (if \<not> success ocr then (self, False)
      else
        let scores_only =
              (case scores_only_arg of None \<Rightarrow> has_master_list self | Some b \<Rightarrow> b);
            (d, matched_count, unmatched_count) =
              merge_scores scores_only (has_master_list self) (student_scores self)
                (data_scores ocr)
        in (self\<lparr>student_scores := d,
                 processed_files := processed_files self @ [file_name ocr]\<rparr>, True))"

definition batch_add_results :: "aggregator \<Rightarrow> ocr_result list \<Rightarrow> aggregator \<times> nat" where
  "batch_add_results self ocr_results =
     foldl (\<lambda>(s, success_count) result.
              case add_ocr_result s result None of
                (s', ok) \<Rightarrow> (s', if ok then success_count + 1 else success_count))
       (self, 0) ocr_results"

text \<open>
  The dictionary \<open>get_statistics\<close> returns; the early return has no \<open>processed_files\<close>
  entry.
\<close>

record statistics =
  total_students :: nat
  total_files :: nat
  avg_scores_per_student :: rat
  students_with_all_scores :: nat
  stats_processed_files :: "string list option"

definition get_statistics :: "rounding \<Rightarrow> aggregator \<Rightarrow> statistics" where
  "get_statistics rnd self =
     (let n_students = length (student_scores self);
          n_files = length (processed_files self)
      in
        if n_students = 0 then
          \<lparr>total_students = 0, total_files = 0, avg_scores_per_student = 0,
           students_with_all_scores = 0, stats_processed_files = None\<rparr>
        else
          let score_counts = map (\<lambda>(k, i). length (info_scores i)) (student_scores self);
              avg_scores =
                rnd (of_nat (sum_list score_counts) / of_nat (length score_counts));
              students_with_all = length (filter (\<lambda>count. count = n_files) score_counts)
          in \<lparr>total_students = n_students, total_files = n_files,
              avg_scores_per_student = py_round_ndigits rnd avg_scores 2,
              students_with_all_scores = students_with_all,
              stats_processed_files = Some (processed_files self)\<rparr>)"

definition clear :: "aggregator \<Rightarrow> aggregator" where
  "clear self = self\<lparr>student_scores := [], processed_files := []\<rparr>"

section \<open>Tabular emitter: \<open>src/csv_writer.py\<close>\<close>

text \<open>One element of the list \<open>get_aggregated_data\<close> returns and \<open>write\<close> takes.\<close>

record student =
  st_student_id :: key
  st_order :: "int option"
  st_name :: "string option"
  st_scores :: "int option list"

text \<open>
  A value handed to \<open>csv.writer\<close>, and the field the writer makes of it: \<open>None\<close> is
  written as the empty field, a number by \<open>str\<close>. Quoting is not modelled.
\<close>

datatype cell = IntCell int | StrCell string | NoneCell

fun csv_field :: "cell \<Rightarrow> string" where
  "csv_field (IntCell i) = str_int i"
| "csv_field (StrCell s) = s"
| "csv_field NoneCell = []"

definition opt_int_cell :: "int option \<Rightarrow> cell" where
  "opt_int_cell v = (case v of None \<Rightarrow> NoneCell | Some i \<Rightarrow> IntCell i)"

definition opt_str_cell :: "string option \<Rightarrow> cell" where
  "opt_str_cell v = (case v of None \<Rightarrow> NoneCell | Some s \<Rightarrow> StrCell s)"

text \<open>The three fixed column titles, as UTF-8 bytes.\<close>

definition header_order :: string where
  "header_order = [CHR 0xE5, CHR 0xA0, CHR 0xB1, CHR 0xE5, CHR 0x91, CHR 0x8A,
                   CHR 0xE9, CHR 0xA0, CHR 0x86, CHR 0xE5, CHR 0xBA, CHR 0x8F]"

definition header_student_id :: string where
  "header_student_id = [CHR 0xE5, CHR 0xAD, CHR 0xB8, CHR 0xE8, CHR 0x99, CHR 0x9F]"

definition header_name :: string where
  "header_name = [CHR 0xE5, CHR 0xA7, CHR 0x93, CHR 0xE5, CHR 0x90, CHR 0x8D]"

definition student_row :: "nat \<Rightarrow> student \<Rightarrow> cell list" where
  "student_row max_scores st =
     (let row = [opt_int_cell (st_order st), opt_str_cell (st_student_id st),
                 opt_str_cell (st_name st)];
          scores = st_scores st;
          row = row @ map (\<lambda>s. case s of None \<Rightarrow> StrCell [] | Some v \<Rightarrow> IntCell v) scores
      in if length scores < max_scores
         then row @ replicate (max_scores - length scores) (StrCell [])
         else row)"

text \<open>
  \<open>CSVWriter.write(data, score_column_prefix)\<close> (\<open>write\<close> is a keyword here, hence
  the longer name): \<open>None\<close> is the result \<open>False\<close> with no
  file written; \<open>Some rows\<close> is the result \<open>True\<close> with the rows handed to the CSV
  writer, the header first. A failure of the file system is outside the model.
\<close>

definition CSVWriter_write :: "string \<Rightarrow> student list \<Rightarrow> cell list list option" where
  "CSVWriter_write score_column_prefix data =
     (if data = [] then None
      else
        let max_scores = Max (set (map (\<lambda>st. length (st_scores st)) data));
            headers = [StrCell header_order, StrCell header_student_id, StrCell header_name]
              @ map (\<lambda>i. StrCell (score_column_prefix @ str_int (int i + 1))) [0..<max_scores]
        in Some (headers # map (student_row max_scores) data))"

section \<open>Properties of the rounding\<close>

lemma round_half_even_cases:
  "round_half_even x = \<lfloor>x\<rfloor> \<and> x - of_int \<lfloor>x\<rfloor> \<le> 1 / 2 \<and>
     (x - of_int \<lfloor>x\<rfloor> = 1 / 2 \<longrightarrow> even \<lfloor>x\<rfloor>)
   \<or> round_half_even x = \<lfloor>x\<rfloor> + 1 \<and> 1 / 2 \<le> x - of_int \<lfloor>x\<rfloor> \<and>
     (x - of_int \<lfloor>x\<rfloor> = 1 / 2 \<longrightarrow> odd \<lfloor>x\<rfloor>)"
  by (simp add: round_half_even_def Let_def)

lemma round_half_even_ge: "of_int j \<le> x \<Longrightarrow> j \<le> round_half_even x"
proof -
  assume "of_int j \<le> x"
  then have "j \<le> \<lfloor>x\<rfloor>" by (simp add: le_floor_iff)
  then show ?thesis using round_half_even_cases [of x] by linarith
qed

lemma round_half_even_le: "x \<le> of_int j \<Longrightarrow> round_half_even x \<le> j"
proof -
  assume a: "x \<le> of_int j"
  then have fj: "\<lfloor>x\<rfloor> \<le> j" by (simp add: floor_le_iff) 
  show ?thesis
  proof (cases "x = of_int j")
    case True
    then show ?thesis using round_half_even_cases [of x] by auto
  next
    case False
    with a have "x < of_int j" by simp
    then have "\<lfloor>x\<rfloor> < j" by (simp add: floor_less_iff)
    then show ?thesis using round_half_even_cases [of x] by linarith
  qed
qed

lemma round_half_even_nearest: "\<bar>of_int (round_half_even x) - x\<bar> \<le> 1 / 2"
proof -
  have "of_int \<lfloor>x\<rfloor> \<le> x" "x < of_int \<lfloor>x\<rfloor> + 1" by linarith+
  then show ?thesis using round_half_even_cases [of x] by (auto simp: abs_le_iff)
qed

lemma round_half_even_tie:
  assumes "\<bar>of_int (round_half_even x) - x\<bar> = 1 / 2"
  shows "even (round_half_even x)"
proof -
  have fl: "of_int \<lfloor>x\<rfloor> \<le> x" "x < of_int \<lfloor>x\<rfloor> + 1" by linarith+
  from round_half_even_cases [of x] show ?thesis
  proof (elim disjE conjE)
    assume r: "round_half_even x = \<lfloor>x\<rfloor>" and i: "x - of_int \<lfloor>x\<rfloor>
        = 1 / 2 \<longrightarrow> even \<lfloor>x\<rfloor>"
    from assms r have "\<bar>of_int \<lfloor>x\<rfloor> - x\<bar> = 1 / 2" by simp
    with fl have "x - of_int \<lfloor>x\<rfloor> = 1 / 2" by linarith
    with i r show ?thesis by simp
  next
    assume r: "round_half_even x = \<lfloor>x\<rfloor> + 1" and i: "x - of_int \<lfloor>x\<rfloor>
        = 1 / 2 \<longrightarrow> odd \<lfloor>x\<rfloor>"
    from assms r have "\<bar>of_int \<lfloor>x\<rfloor> + 1 - x\<bar> = 1 / 2" by simp
    with fl have "x - of_int \<lfloor>x\<rfloor> = 1 / 2" by linarith
    with i r show ?thesis by simp
  qed
qed

lemma ilog2_lower:
  assumes "x \<noteq> 0"
  shows "2 powi (ilog2 x) \<le> \<bar>x\<bar>"
proof -
  obtain p q where pq: "quotient_of \<bar>x\<bar> = (p, q)" by (cases "quotient_of \<bar>x\<bar>")
  have q: "0 < q" using pq by (rule quotient_of_denom_pos)
  have x: "\<bar>x\<bar> = of_int p / of_int q" using pq by (rule quotient_of_div)
  have p: "0 < p" using assms x q by (simp add: zero_less_divide_iff flip: zero_less_abs_iff [of x])
  define d where "d = bitlen p - bitlen q"
  show ?thesis
  proof (cases "2 powi d \<le> \<bar>x\<bar>")
    case True
    then show ?thesis by (simp add: ilog2_def pq d_def)
  next
    case False
    then have il: "ilog2 x = d - 1" by (simp add: ilog2_def pq d_def)
    have bp: "(2::int) ^ nat (bitlen p - 1) \<le> p" using bitlen_bounds [OF p] by simp
    have bq: "q < (2::int) ^ nat (bitlen q)" using bitlen_bounds [OF q] by simp
    have bp1: "1 \<le> bitlen p" using p bitlen_eq_zero_iff [of p] bitlen_nonneg [of p] by linarith
    have bq0: "0 \<le> bitlen q" by (rule bitlen_nonneg)
    have "(2::rat) powi (d - 1) = 2 powi ((bitlen p - 1) - bitlen q)"
      by (rule arg_cong [of _ _ "\<lambda>n. 2 powi n"]) (simp add: d_def)
    also have "\<dots> = 2 powi (bitlen p - 1) / 2 powi (bitlen q)"
      by (rule power_int_diff) simp
    also have "\<dots> = 2 ^ nat (bitlen p - 1) / 2 ^ nat (bitlen q)"
      using bp1 bq0 by (simp add: power_int_def)
    also have "\<dots> \<le> of_int p / 2 ^ nat (bitlen q)"
      using bp by (simp add: divide_right_mono of_int_le_numeral_power_cancel_iff)
    also have "\<dots> \<le> of_int p / of_int q"
    proof (rule divide_left_mono)
      show "(of_int q :: rat) \<le> 2 ^ nat (bitlen q)" using bq
        by (metis less_imp_le of_int_le_iff of_int_numeral of_int_power)
      show "0 \<le> (of_int p :: rat)" using p by simp
      show "0 < (2::rat) ^ nat (bitlen q) * of_int q" using q by simp
    qed
    finally show ?thesis by (simp add: il x)
  qed
qed

text \<open>
  Integers below \<open>2\<^sup>5\<^sup>3\<close> are doubles, and so is every multiple of \<open>2\<^sup>-\<^sup>d\<close> below
  \<open>2\<^sup>5\<^sup>3\<^sup>-\<^sup>d\<close>; rounding never crosses such a value.
\<close>

lemma binary64_bracket:
  assumes x: "\<bar>x\<bar> < 2 ^ (53 - d)" and d: "d \<le> 53"
  shows "of_int j / 2 ^ d \<le> x \<Longrightarrow> of_int j / 2 ^ d \<le> binary64 x"
    and "x \<le> of_int j / 2 ^ d \<Longrightarrow> binary64 x \<le> of_int j / 2 ^ d"
proof -
  have both: "(of_int j / 2 ^ d \<le> x \<longrightarrow> of_int j / 2 ^ d \<le> binary64 x) \<and>
              (x \<le> of_int j / 2 ^ d \<longrightarrow> binary64 x \<le> of_int j / 2 ^ d)"
  proof (cases "x = 0")
    case True
    then show ?thesis by (simp add: binary64_def)
  next
    case False
    define e where "e = max (ilog2 x) (- 1022) - 52"
    have "(2::rat) powi (ilog2 x) < 2 powi (int (53 - d))"
      using ilog2_lower [OF False] x by simp
    then have "ilog2 x < int (53 - d)"
      by (rule power_int_le_imp_less_exp [rotated]) simp_all
    then have e: "e \<le> - int d" using d by (simp add: e_def)
    define k where "k = nat (- e)"
    have kd: "d \<le> k" using e by (simp add: k_def)
    have pw: "(2::rat) powi e = 1 / 2 ^ k"
      using e by (simp add: k_def power_int_def power_one_over)
    have fl: "binary64 x = of_int (round_half_even (x * 2 ^ k)) / 2 ^ k"
      using False by (simp add: binary64_def e_def [symmetric] pw)
    have "(2::rat) ^ k = 2 ^ d * 2 ^ (k - d)"
      using kd by (simp flip: power_add)
    then have jk: "of_int j / (2::rat) ^ d = of_int (j * 2 ^ (k - d)) / 2 ^ k"
      by simp
    show ?thesis
    proof (intro conjI impI)
      assume "of_int j / 2 ^ d \<le> x"
      then have "of_int (j * 2 ^ (k - d)) \<le> x * 2 ^ k"
        unfolding jk by (simp add: pos_divide_le_eq)
      then have "j * 2 ^ (k - d) \<le> round_half_even (x * 2 ^ k)"
        by (rule round_half_even_ge)
      then have "(of_int (j * 2 ^ (k - d)) :: rat) \<le> of_int (round_half_even (x * 2 ^ k))"
        by (simp only: of_int_le_iff)
      then show "of_int j / 2 ^ d \<le> binary64 x"
        unfolding jk fl by (simp add: divide_right_mono)
    next
      assume "x \<le> of_int j / 2 ^ d"
      then have "x * 2 ^ k \<le> of_int (j * 2 ^ (k - d))"
        unfolding jk by (simp add: pos_le_divide_eq)
      then have "round_half_even (x * 2 ^ k) \<le> j * 2 ^ (k - d)"
        by (rule round_half_even_le)
      then have "(of_int (round_half_even (x * 2 ^ k)) :: rat) \<le> of_int (j * 2 ^ (k - d))"
        by (simp only: of_int_le_iff)
      then show "binary64 x \<le> of_int j / 2 ^ d"
        unfolding jk fl by (simp add: divide_right_mono)
    qed
  qed
  show "of_int j / 2 ^ d \<le> x \<Longrightarrow> of_int j / 2 ^ d \<le> binary64 x" using both by blast
  show "x \<le> of_int j / 2 ^ d \<Longrightarrow> binary64 x \<le> of_int j / 2 ^ d" using both by blast
qed

lemma binary64_int:
  assumes "\<bar>of_int j :: rat\<bar> < 2 ^ 53"
  shows "binary64 (of_int j) = of_int j"
proof -
  have "\<bar>of_int j :: rat\<bar> < 2 ^ (53 - 0)" using assms by simp
  from binary64_bracket [OF this, of j] show ?thesis by simp
qed

section \<open>Properties of the robust scorer\<close>

lemma binary64_tenth: "binary64 (1 / 10) = 3602879701896397 / 36028797018963968"
  by code_simp

lemma py_slice_trim:
  "0 < tc \<Longrightarrow> py_slice xs tc (- tc) = take (length xs - 2 * nat tc) (drop (nat tc) xs)"
  by (auto simp: py_slice_def slice_index_def Let_def min_def max_def nat_diff_distrib mult_2)

lemma trim_count_exact: "trim_count exact n (1 / 10) = int (n div 10)"
proof -
  have "\<lfloor>(of_nat n :: rat) / of_nat 10\<rfloor> = int (n div 10)"
    by (rule floor_divide_of_nat_eq)
  then show ?thesis by (simp add: trim_count_def exact_def py_int_def)
qed

lemma trim_count_binary64:
  assumes n: "n < 2 ^ 48"
  shows "trim_count binary64 n (binary64 (1 / 10)) = int (n div 10)"
proof -
  define x :: rat where "x = of_nat n * (3602879701896397 / 36028797018963968)"
  define m where "m = n div 10"
  have nm: "n = 10 * m + n mod 10" by (simp add: m_def)
  have r: "n mod 10 \<le> 9" by simp
  have nr: "(of_nat n :: rat) < 2 ^ 48" using n
    by (metis of_nat_less_iff of_nat_numeral of_nat_power)
  have n0: "(0::rat) \<le> of_nat n" by simp
  have lo: "of_int (int m) / 2 ^ 0 \<le> x"
  proof -
    have "(of_nat m :: rat) * 10 \<le> of_nat n" using nm
      by (metis le_add1 mult.commute of_nat_le_iff of_nat_mult of_nat_numeral)
    then show ?thesis using n0 by (simp add: x_def)
  qed
  have hi: "x \<le> of_int (16 * int m + 15) / 2 ^ 4"
  proof -
    have "(of_nat n :: rat) \<le> of_nat m * 10 + 9" using nm r
      by (metis add_left_mono mult.commute of_nat_le_iff of_nat_add of_nat_mult of_nat_numeral)
    then show ?thesis using nr n0 by (simp add: x_def)
  qed
  have x0: "0 \<le> x" using n0 by (simp add: x_def)
  have xb: "\<bar>x\<bar> < 2 ^ (53 - 4)" using nr x0 by (simp add: x_def)
  then have xb0: "\<bar>x\<bar> < 2 ^ (53 - 0)" by simp
  have l: "of_int (int m) \<le> binary64 x"
    using binary64_bracket(1) [OF xb0 _ lo] by simp
  have h: "binary64 x \<le> of_int (16 * int m + 15) / 2 ^ 4"
    using binary64_bracket(2) [OF xb _ hi] by simp
  from h have h': "binary64 x < of_int (int m) + 1" by simp
  have "\<lfloor>binary64 x\<rfloor> = int m"
    using l h' by (simp add: floor_unique)
  moreover have "0 \<le> binary64 x" using l by (simp add: order_trans [OF _ l])
  ultimately show ?thesis
    by (simp add: trim_count_def binary64_tenth py_int_def x_def m_def)
qed

lemma py_sum_exact: "py_sum exact xs = sum_list xs"
proof -
  have "foldl (\<lambda>acc x. exact (acc + x)) a xs = a + sum_list xs" for a
    by (induction xs arbitrary: a) (simp_all add: exact_def)
  from this [of 0] show ?thesis by (simp add: py_sum_def)
qed

lemma arithmetic_mean_exact: "arithmetic_mean exact xs = sum_list xs / of_nat (length xs)"
  by (simp add: arithmetic_mean_def py_sum_exact exact_def)

lemma sort_not_Nil: "xs \<noteq> [] \<Longrightarrow> sort xs \<noteq> []"
  by (metis length_sort length_0_conv)

lemma calculate_trimmed_mean_unfold:
  assumes "scores \<noteq> []" and "trim_count rnd (length scores) p = int tc"
  shows "calculate_trimmed_mean rnd scores p =
     (let slice = take (length scores - 2 * tc) (drop tc (sort scores))
      in if slice \<noteq> [] then Inr (arithmetic_mean rnd slice)
         else Inr (arithmetic_mean rnd (sort scores)))"
proof (cases "tc = 0")
  case True
  then show ?thesis using assms sort_not_Nil [OF assms(1)]
    by (simp add: calculate_trimmed_mean_def Let_def py_truediv_def arithmetic_mean_def)
next
  case False
  then have "py_slice (sort scores) (int tc) (- int tc) =
      take (length scores - 2 * tc) (drop tc (sort scores))"
    using py_slice_trim [of "int tc" "sort scores"] by simp
  then show ?thesis using assms False sort_not_Nil [OF assms(1)]
    by (simp add: calculate_trimmed_mean_def Let_def py_truediv_def arithmetic_mean_def)
qed

text \<open>
  Claim C1. With the default \<open>trim_percent = 0.10\<close>, in exact arithmetic and in double
  precision (for fewer than \<open>2\<^sup>4\<^sup>8\<close> scores): the trim count is \<open>floor(n * 0.10)\<close>; the
  result of an empty list is \<open>0.0\<close>; otherwise, when dropping that many elements from each
  end of the sorted list leaves a non-empty slice the result is the mean of the slice, and
  when it leaves nothing the result is the mean of the whole sorted list. The result is
  never an error. In exact arithmetic the mean is the sum divided by the length.
\<close>

theorem trimmed_mean_policy:
  fixes S :: "rat list"
  assumes "rnd = exact \<or> rnd = binary64 \<and> length S < 2 ^ 48"
  shows "trim_count rnd (length S) (trim_percent_default rnd) = \<lfloor>of_nat (length S) * (1 / 10 :: rat)\<rfloor>
    \<and> calculate_trimmed_mean rnd S (trim_percent_default rnd) =
       (if S = [] then Inr 0
        else let n = length S;
                 k = nat \<lfloor>of_nat n * (1 / 10 :: rat)\<rfloor>;
                 slice = take (n - 2 * k) (drop k (sort S))
             in if slice \<noteq> [] then Inr (arithmetic_mean rnd slice)
                else Inr (arithmetic_mean rnd (sort S)))
    \<and> (rnd = exact \<longrightarrow> (\<forall>xs. arithmetic_mean rnd xs = sum_list xs / of_nat (length xs)))"
proof (intro conjI)
  have fl: "\<lfloor>of_nat (length S) * (1 / 10 :: rat)\<rfloor> = int (length S div 10)"
    using floor_divide_of_nat_eq [of "length S" 10, where ?'a = rat] by simp
  have tc: "trim_count rnd (length S) (trim_percent_default rnd) = int (length S div 10)"
    using assms trim_count_exact trim_count_binary64
    by (auto simp: trim_percent_default_def exact_def)
  show "trim_count rnd (length S) (trim_percent_default rnd) = \<lfloor>of_nat (length S) * (1 / 10 :: rat)\<rfloor>"
    by (simp only: tc fl)
  show "calculate_trimmed_mean rnd S (trim_percent_default rnd) =
       (if S = [] then Inr 0
        else let n = length S;
                 k = nat \<lfloor>of_nat n * (1 / 10 :: rat)\<rfloor>;
                 slice = take (n - 2 * k) (drop k (sort S))
             in if slice \<noteq> [] then Inr (arithmetic_mean rnd slice)
                else Inr (arithmetic_mean rnd (sort S)))"
  proof (cases "S = []")
    case True
    then show ?thesis by (simp add: calculate_trimmed_mean_def)
  next
    case False
    have k: "nat \<lfloor>of_nat (length S) * (1 / 10 :: rat)\<rfloor> = length S div 10"
      by (simp only: fl nat_int)
    show ?thesis
      unfolding calculate_trimmed_mean_unfold [OF False tc] Let_def k
      using False by simp
  qed
  show "rnd = exact \<longrightarrow> (\<forall>xs. arithmetic_mean rnd xs = sum_list xs / of_nat (length xs))"
    by (simp add: arithmetic_mean_exact)
qed

text \<open>The cases of C1 at the empty list and at \<open>[5, 6, 7]\<close>, whose mean is \<open>6\<close>.\<close>

theorem trimmed_mean_policy_witness:
  "calculate_trimmed_mean exact [] (trim_percent_default exact) = Inr 0
   \<and> trim_count exact (length [5, 6, 7 :: rat]) (trim_percent_default exact) = 0
   \<and> calculate_trimmed_mean exact [5, 6, 7] (trim_percent_default exact) = Inr 6"
proof -
  have f: "\<lfloor>of_nat (length [5, 6, 7 :: rat]) * (1 / 10 :: rat)\<rfloor> = 0"
    by (simp add: floor_eq_iff)
  show ?thesis
    using trimmed_mean_policy [of exact "[]"] trimmed_mean_policy [of exact "[5, 6, 7]"]
    unfolding f by (simp add: Let_def)
qed

lemma calculate_trimmed_mean_slice:
  assumes "S \<noteq> []"
  shows "\<exists>T. T \<noteq> [] \<and> set T \<subseteq> set S \<and> length T \<le> length S \<and>
    calculate_trimmed_mean rnd S p = Inr (arithmetic_mean rnd T)"
proof -
  define srt where "srt = sort S"
  define tc where "tc = trim_count rnd (length srt) p"
  define T1 where "T1 = (if tc > 0 then py_slice srt tc (- tc) else srt)"
  define T where "T = (if T1 = [] then srt else T1)"
  have srt: "srt \<noteq> []" "set srt = set S" "length srt = length S"
    using assms by (simp_all add: srt_def sort_not_Nil)
  have "set T1 \<subseteq> set srt \<and> length T1 \<le> length srt"
    by (auto simp: T1_def py_slice_def Let_def dest: in_set_takeD in_set_dropD)
  then have T: "T \<noteq> []" "set T \<subseteq> set S" "length T \<le> length S"
    using srt by (auto simp: T_def)
  have "calculate_trimmed_mean rnd S p = py_truediv rnd (py_sum rnd T) (int (length T))"
    using assms sort_not_Nil [OF assms]
    by (simp add: calculate_trimmed_mean_def Let_def T_def T1_def tc_def srt_def)
  also have "\<dots> = Inr (arithmetic_mean rnd T)"
    using T(1) by (simp add: py_truediv_def arithmetic_mean_def)
  finally show ?thesis using T by blast
qed

lemma calculate_trimmed_mean_no_error:
  "\<exists>m. calculate_trimmed_mean rnd S p = Inr m"
proof (cases "S = []")
  case True
  then show ?thesis by (simp add: calculate_trimmed_mean_def)
next
  case False
  from calculate_trimmed_mean_slice [OF this] show ?thesis by blast
qed

text \<open>
  Claim C7. For every list of scores and every rounding of the arithmetic, the trimmed
  mean \<open>tm\<close> is computed without error and the final score is the integer nearest to the
  float \<open>tm * 10\<close>, a tie always going to the even neighbour. For ten scores of \<open>7\<close> the
  trim count is \<open>1\<close>, the trimmed mean is \<open>7\<close> and the final score is \<open>70\<close>, in exact
  arithmetic and in double precision.
\<close>

theorem final_score_rounding:
  "(\<exists>tm r. calculate_trimmed_mean rnd scores (trim_percent_default rnd) = Inr tm
        \<and> final_score rnd scores = Inr r
        \<and> \<bar>of_int r - rnd (tm * 10)\<bar> \<le> 1 / 2
        \<and> (\<bar>of_int r - rnd (tm * 10)\<bar> = 1 / 2 \<longrightarrow> even r))
   \<and> (\<forall>rnd \<in> {exact, binary64}.
        trim_count rnd (length (replicate 10 (7 :: rat))) (trim_percent_default rnd) = 1
        \<and> calculate_trimmed_mean rnd (replicate 10 7) (trim_percent_default rnd) = Inr 7
        \<and> final_score rnd (replicate 10 7) = Inr 70)"
proof (intro conjI ballI)
  obtain tm where tm: "calculate_trimmed_mean rnd scores (trim_percent_default rnd) = Inr tm"
    using calculate_trimmed_mean_no_error by blast
  then have "final_score rnd scores = Inr (round_half_even (rnd (tm * 10)))"
    by (simp add: final_score_def py_round_def)
  with tm show "\<exists>tm r. calculate_trimmed_mean rnd scores (trim_percent_default rnd) = Inr tm
        \<and> final_score rnd scores = Inr r
        \<and> \<bar>of_int r - rnd (tm * 10)\<bar> \<le> 1 / 2
        \<and> (\<bar>of_int r - rnd (tm * 10)\<bar> = 1 / 2 \<longrightarrow> even r)"
    using round_half_even_nearest round_half_even_tie by blast
next
  fix r :: rounding
  assume "r \<in> {exact, binary64}"
  then have r: "r = exact \<or> r = binary64" by simp
  have e1: "trim_count exact (length (replicate 10 (7 :: rat))) (trim_percent_default exact) = 1"
    by code_simp
  have b1: "trim_count binary64 (length (replicate 10 (7 :: rat))) (trim_percent_default binary64) = 1"
    by code_simp
  have e2: "calculate_trimmed_mean exact (replicate 10 7) (trim_percent_default exact) = Inr 7"
    by code_simp
  have b2: "calculate_trimmed_mean binary64 (replicate 10 7) (trim_percent_default binary64) = Inr 7"
    by code_simp
  have e3: "final_score exact (replicate 10 7) = Inr 70"
    by code_simp
  have b3: "final_score binary64 (replicate 10 7) = Inr 70"
    by code_simp
  show "trim_count r (length (replicate 10 (7 :: rat))) (trim_percent_default r) = 1"
    using r e1 b1 by blast
  show "calculate_trimmed_mean r (replicate 10 7) (trim_percent_default r) = Inr 7"
    using r e2 b2 by blast
  show "final_score r (replicate 10 7) = Inr 70"
    using r e3 b3 by blast
qed

text \<open>
  Two exact halfway points: \<open>62.5\<close> is rounded down to \<open>62\<close> and \<open>67.5\<close>
      up to \<open>68\<close>.
\<close>

theorem final_score_rounding_witness:
  "final_score exact [6, 6, 6, 7] = Inr 62 \<and> final_score exact [6, 7, 7, 7] = Inr 68"
proof -
  have 1: "calculate_trimmed_mean exact [6, 6, 6, 7] (trim_percent_default exact) = Inr (25 / 4)"
    by code_simp
  have 2: "calculate_trimmed_mean exact [6, 7, 7, 7] (trim_percent_default exact) = Inr (27 / 4)"
    by code_simp
  from final_score_rounding [of exact "[6, 6, 6, 7]", THEN conjunct1] obtain tm r where
    r: "calculate_trimmed_mean exact [6, 6, 6, 7] (trim_percent_default exact) = Inr tm"
       "final_score exact [6, 6, 6, 7] = Inr r" "\<bar>of_int r - exact (tm * 10)\<bar> \<le> 1 / 2"
       "\<bar>of_int r - exact (tm * 10)\<bar> = 1 / 2 \<longrightarrow> even r"
    by blast
  have tm: "tm = 25 / 4" using r(1) unfolding 1 by (simp only: sum.inject)
  from r(3) have "\<bar>of_int r - (125 / 2 :: rat)\<bar> \<le> 1 / 2"
    by (simp add: tm exact_def)
  then have "of_int r \<le> (of_int 63 :: rat)" "(of_int 62 :: rat) \<le> of_int r"
    by (simp_all only: of_int_numeral)
  then have "r \<le> 63" "62 \<le> r" by (simp_all only: of_int_le_iff)
  then have "r = 62 \<or> r = 63" by linarith
  with r(4) have r62: "r = 62" by (auto simp: tm exact_def)
  from final_score_rounding [of exact "[6, 7, 7, 7]", THEN conjunct1] obtain tm' q where
    q: "calculate_trimmed_mean exact [6, 7, 7, 7] (trim_percent_default exact) = Inr tm'"
       "final_score exact [6, 7, 7, 7] = Inr q" "\<bar>of_int q - exact (tm' * 10)\<bar> \<le> 1 / 2"
       "\<bar>of_int q - exact (tm' * 10)\<bar> = 1 / 2 \<longrightarrow> even q"
    by blast
  have tm': "tm' = 27 / 4" using q(1) unfolding 2 by (simp only: sum.inject)
  from q(3) have "\<bar>of_int q - (135 / 2 :: rat)\<bar> \<le> 1 / 2"
    by (simp add: tm' exact_def)
  then have "of_int q \<le> (of_int 68 :: rat)" "(of_int 67 :: rat) \<le> of_int q"
    by (simp_all only: of_int_numeral)
  then have "q \<le> 68" "67 \<le> q" by (simp_all only: of_int_le_iff)
  then have "q = 67 \<or> q = 68" by linarith
  with q(4) have "q = 68" by (auto simp: tm' exact_def)
  with r62 r(2) q(2) show ?thesis by simp
qed

lemma sum_list_bounds:
  fixes xs :: "rat list"
  assumes "\<forall>x\<in>set xs. a \<le> x \<and> x \<le> b"
  shows "of_nat (length xs) * a \<le> sum_list xs \<and> sum_list xs \<le> of_nat (length xs) * b"
  using assms by (induction xs) (auto simp: algebra_simps)

lemma mean_bounds:
  fixes xs :: "rat list"
  assumes "xs \<noteq> []" and "\<forall>x\<in>set xs. a \<le> x \<and> x \<le> b"
  shows "a \<le> sum_list xs / of_nat (length xs) \<and> sum_list xs / of_nat (length xs) \<le> b"
proof -
  have "(0::rat) < of_nat (length xs)" using assms(1) by simp
  then show ?thesis
    using sum_list_bounds [OF assms(2)]
    by (simp add: pos_le_divide_eq pos_divide_le_eq mult.commute)
qed

lemma foldl_binary64_int:
  assumes "\<forall>x\<in>set xs. x \<in> \<int>" and "a \<in> \<int>"
    and "\<bar>a\<bar> + sum_list (map abs xs) < 2 ^ 53"
  shows "foldl (\<lambda>acc x. binary64 (acc + x)) a xs = a + sum_list xs"
  using assms
proof (induction xs arbitrary: a)
  case Nil
  then show ?case by simp
next
  case (Cons x xs)
  from Cons.prems have "a + x \<in> \<int>" by simp
  then obtain j where j: "a + x = of_int j" by (auto elim: Ints_cases)
  have le: "\<bar>a + x\<bar> \<le> \<bar>a\<bar> + \<bar>x\<bar>" by (rule abs_triangle_ineq)
  have nn: "0 \<le> sum_list (map abs xs)" by (induction xs) auto
  have "\<bar>of_int j :: rat\<bar> < 2 ^ 53" using Cons.prems(3) le nn by (simp flip: j)
  then have b: "binary64 (a + x) = a + x" unfolding j by (rule binary64_int)
  have "foldl (\<lambda>acc x. binary64 (acc + x)) (a + x) xs = (a + x) + sum_list xs"
  proof (rule Cons.IH)
    show "\<forall>x\<in>set xs. x \<in> \<int>" using Cons.prems(1) by simp
    show "a + x \<in> \<int>" by fact
    show "\<bar>a + x\<bar> + sum_list (map abs xs) < 2 ^ 53" using Cons.prems(3) le by simp
  qed
  then show ?case by (simp add: b add.assoc)
qed

lemma sum_list_abs_bound:
  fixes xs :: "rat list"
  assumes "\<forall>x\<in>set xs. \<bar>x\<bar> \<le> B"
  shows "sum_list (map abs xs) \<le> of_nat (length xs) * B"
  using assms by (induction xs) (auto simp: algebra_simps)

lemma Min_Max_bounds:
  fixes S :: "rat list"
  assumes "set T \<subseteq> set S"
  shows "\<forall>x\<in>set T. Min (set S) \<le> x \<and> x \<le> Max (set S)"
  using assms by auto

text \<open>
  Claim C8, amended. The trimmed mean of a non-empty list lies between the least and the
  greatest score in exact arithmetic, and in double precision when the scores are
  integers \<open>x\<close> with \<open>\<bar>x\<bar> * n < 2\<^sup>5\<^sup>3\<close> for the length
      \<open>n\<close> of the list (as grades are).
\<close>

theorem trimmed_mean_bounds:
  fixes S :: "rat list"
  assumes "S \<noteq> []"
    and "rnd = exact \<or>
         rnd = binary64 \<and> (\<forall>x\<in>set S. x \<in> \<int> \<and> \<bar>x\<bar> * of_nat (length S) < 2 ^ 53)"
  shows "\<exists>m. calculate_trimmed_mean rnd S (trim_percent_default rnd) = Inr m
           \<and> Min (set S) \<le> m \<and> m \<le> Max (set S)"
proof -
  obtain T where T: "T \<noteq> []" "set T \<subseteq> set S" "length T \<le> length S"
    and res: "calculate_trimmed_mean rnd S (trim_percent_default rnd) = Inr (arithmetic_mean rnd T)"
    using calculate_trimmed_mean_slice [OF assms(1)] by blast
  have mm: "\<forall>x\<in>set T. Min (set S) \<le> x \<and> x \<le> Max (set S)"
    using T(2) by (rule Min_Max_bounds)
  note ex = mean_bounds [OF T(1) mm]
  from assms(2) show ?thesis
  proof
    assume "rnd = exact"
    then show ?thesis using res ex by (simp add: arithmetic_mean_exact)
  next
    assume b: "rnd = binary64 \<and> (\<forall>x\<in>set S. x \<in> \<int> \<and> \<bar>x\<bar> * of_nat (length S) < 2 ^ 53)"
    define B where "B = Max (abs ` set S)"
    have "B \<in> abs ` set S" unfolding B_def using assms(1) by (intro Max_in) auto
    then obtain x0 where x0: "x0 \<in> set S" "B = \<bar>x0\<bar>" by auto
    have Bn: "B * of_nat (length S) < 2 ^ 53" using b x0 by simp
    have B0: "0 \<le> B" using x0 by simp
    have Bx: "\<forall>x\<in>set S. \<bar>x\<bar> \<le> B" unfolding B_def by simp
    have len1: "(1::rat) \<le> of_nat (length S)" using assms(1)
      by (cases S) simp_all
    have "B * 1 \<le> B * of_nat (length S)" using len1 B0 by (rule mult_left_mono)
    then have B53: "B < 2 ^ 53" using Bn by simp
    have "sum_list (map abs T) \<le> of_nat (length T) * B"
      using Bx T(2) by (intro sum_list_abs_bound) auto
    also have "\<dots> \<le> of_nat (length S) * B"
      using T(3) B0 by (intro mult_right_mono) simp_all
    finally have "\<bar>0::rat\<bar> + sum_list (map abs T) < 2 ^ 53"
      using Bn by (simp add: mult.commute)
    moreover have Tint: "\<forall>x\<in>set T. x \<in> \<int>" using b T(2) by auto
    ultimately have sum: "py_sum binary64 T = sum_list T"
      using foldl_binary64_int [of T 0] by (simp add: py_sum_def)
    define q where "q = sum_list T / of_nat (length T)"
    have am: "arithmetic_mean binary64 T = binary64 q"
      by (simp add: arithmetic_mean_def sum q_def)
    have q: "Min (set S) \<le> q" "q \<le> Max (set S)" using ex by (simp_all add: q_def)
    have mn: "Min (set S) \<in> set S" "Max (set S) \<in> set S"
      using assms(1) by simp_all
    then obtain i j where ij: "Min (set S) = of_int i" "Max (set S) = of_int j"
      using b by (metis Ints_cases)
    have "\<bar>Min (set S)\<bar> \<le> B" "\<bar>Max (set S)\<bar> \<le> B" using Bx mn by blast+
    then have "\<bar>q\<bar> \<le> B" using q by linarith
    then have qb: "\<bar>q\<bar> < 2 ^ (53 - 0)" using B53 by simp
    have "of_int i / 2 ^ 0 \<le> binary64 q"
      using q(1) by (intro binary64_bracket(1) [OF qb]) (simp_all add: ij)
    moreover have "binary64 q \<le> of_int j / 2 ^ 0"
      using q(2) by (intro binary64_bracket(2) [OF qb]) (simp_all add: ij)
    ultimately show ?thesis using res b by (simp add: am ij)
  qed
qed

text \<open>The bounds of C8 for the integer scores \<open>[6, 7, 7]\<close> in double precision.\<close>

theorem trimmed_mean_bounds_witness:
  "\<exists>m. calculate_trimmed_mean binary64 [6, 7, 7] (trim_percent_default binary64) = Inr m
      \<and> 6 \<le> m \<and> m \<le> 7"
  using trimmed_mean_bounds [of "[6, 7, 7]" binary64] by simp

text \<open>
  Claim C8 as stated fails in double precision: for three scores equal to the double
  \<open>0.1\<close>, the sum is rounded up to \<open>0.30000000000000004\<close> and the mean to
  \<open>0.10000000000000002\<close>, which is greater than the greatest score.
\<close>

theorem trimmed_mean_bounds_counterexample:
  "binary64 (3602879701896397 / 36028797018963968) = 3602879701896397 / 36028797018963968
   \<and> calculate_trimmed_mean binary64
        [3602879701896397 / 36028797018963968, 3602879701896397 / 36028797018963968,
         3602879701896397 / 36028797018963968] (trim_percent_default binary64)
       = Inr (7205759403792795 / 72057594037927936)
   \<and> Max (set [3602879701896397 / 36028797018963968, 3602879701896397 / 36028797018963968,
         3602879701896397 / 36028797018963968 :: rat]) < 7205759403792795 / 72057594037927936"
proof (intro conjI)
  show "binary64 (3602879701896397 / 36028797018963968) = 3602879701896397 / 36028797018963968"
    by code_simp
  show "calculate_trimmed_mean binary64
        [3602879701896397 / 36028797018963968, 3602879701896397 / 36028797018963968,
         3602879701896397 / 36028797018963968] (trim_percent_default binary64)
       = Inr (7205759403792795 / 72057594037927936)"
    by code_simp
  show "Max (set [3602879701896397 / 36028797018963968, 3602879701896397 / 36028797018963968,
         3602879701896397 / 36028797018963968 :: rat]) < 7205759403792795 / 72057594037927936"
    by simp
qed

section \<open>Properties of the aggregator\<close>

lemma modify_keys:
  "map fst (modify k f d) = (if k \<in> set (map fst d) then map fst d else map fst d @ [k])"
  by (induction d) (force split: if_splits)+

lemma modify_map_of:
  "map_of (modify k f d) =
     (map_of d)(k \<mapsto> f (case map_of d k of None \<Rightarrow> default_info | Some v \<Rightarrow> v))"
  by (induction d) (auto simp: fun_eq_iff)

lemma contains_map_of: "contains d k \<longleftrightarrow> map_of d k \<noteq> None"
  by (simp add: contains_def map_of_eq_None_iff)

lemma contains_modify: "contains (modify k f d) k' \<longleftrightarrow> k' = k \<or> contains d k'"
  by (auto simp: contains_def modify_keys)

lemma modify_modify: "modify k f (modify k g d) = modify k (f \<circ> g) d"
  by (induction d) auto

lemma add_score_data_reject:
  assumes "sd_student_id sd \<noteq> None \<or> sd_order sd = None"
    and "\<not> contains d (sd_student_id sd)"
  shows "add_score_data True True (d, m, u) sd = (d, m, u + 1)"
  using assms by (auto simp: add_score_data_def Let_def)

lemma add_score_data_roster_keys:
  assumes "sd_student_id sd \<noteq> None \<or> sd_order sd = None"
  shows "map fst (fst (add_score_data True True (d, m, u) sd)) = map fst d"
  using assms by (auto simp: add_score_data_def Let_def modify_keys contains_def)

lemma foldl_roster_keys:
  assumes "\<forall>sd\<in>set sds. sd_student_id sd \<noteq> None \<or> sd_order sd = None"
  shows "map fst (fst (foldl (add_score_data True True) st sds)) = map fst (fst st)"
  using assms
proof (induction sds arbitrary: st)
  case Nil
  then show ?case by simp
next
  case (Cons sd sds)
  obtain d m u where st: "st = (d, m, u)" by (cases st)
  have "map fst (fst (add_score_data True True st sd)) = map fst (fst st)"
    using Cons.prems by (simp add: st add_score_data_roster_keys)
  then show ?case using Cons by simp
qed

lemma foldl_reject_all:
  assumes "\<forall>sd\<in>set sds. sd_student_id sd \<noteq> None \<or> sd_order sd = None"
    and "\<forall>sd\<in>set sds. \<not> contains d (sd_student_id sd)"
  shows "foldl (add_score_data True True) (d, m, u) sds = (d, m, u + length sds)"
  using assms by (induction sds arbitrary: u) (simp_all add: add_score_data_reject)

lemma add_ocr_result_has_master_list:
  "has_master_list (fst (add_ocr_result self ocr so)) = has_master_list self"
  by (simp add: add_ocr_result_def Let_def split: prod.splits)

lemma add_ocr_result_student_scores:
  "student_scores (fst (add_ocr_result self ocr None)) =
     (if success ocr
      then fst (merge_scores (has_master_list self) (has_master_list self) (student_scores self)
                  (data_scores ocr))
      else student_scores self)"
  by (simp add: add_ocr_result_def Let_def split: prod.splits)

lemma batch_invariant:
  fixes I :: "aggregator \<Rightarrow> bool"
  assumes "I self" and "\<And>s r. I s \<Longrightarrow> r \<in> set docs \<Longrightarrow> I (fst (add_ocr_result s r None))"
  shows "I (fst (batch_add_results self docs))"
proof -
  have "I (fst (foldl (\<lambda>(s, success_count) result.
              case add_ocr_result s result None of
                (s', ok) \<Rightarrow> (s', if ok then success_count + 1 else success_count))
       (s, c) ds))" if "I s" "set ds \<subseteq> set docs" for s ds and c :: nat
    using that
  proof (induction ds arbitrary: s c)
    case Nil
    then show ?case by simp
  next
    case (Cons r ds)
    obtain s' ok where a: "add_ocr_result s r None = (s', ok)" by (cases "add_ocr_result s r None")
    have "I s'" using assms(2) [of s r] Cons.prems a by simp
    then show ?case using Cons.IH [of s'] Cons.prems(2) by (simp add: a)
  qed
  from this [of self docs 0] assms(1) show ?thesis by (simp add: batch_add_results_def)
qed

lemma keys_modify: "set (map fst (modify k f d)) = insert k (set (map fst d))"
  by (auto simp: modify_keys)

lemma distinct_modify: "distinct (map fst d) \<Longrightarrow> distinct (map fst (modify k f d))"
  by (simp add: modify_keys)

lemma load_keys:
  "set (map fst (foldl (\<lambda>d student. modify (Some (ms_student_id student)) (g student) d) d roster))
     = set (map fst d) \<union> Some ` ms_student_id ` set roster
   \<and> (distinct (map fst d) \<longrightarrow>
        distinct (map fst (foldl (\<lambda>d student. modify (Some (ms_student_id student)) (g student) d) d roster)))"
proof (induction roster arbitrary: d)
  case Nil
  then show ?case by simp
next
  case (Cons a roster)
  show ?case
    using Cons [of "modify (Some (ms_student_id a)) (g a) d"]
    by (simp add: keys_modify distinct_modify del: set_map)
qed

lemma init_keys:
  "set (map fst (student_scores (init (Some roster)))) = Some ` ms_student_id ` set roster"
  "distinct (map fst (student_scores (init (Some roster))))"
  "has_master_list (init (Some roster))"
  using load_keys [of "\<lambda>student i. i\<lparr>info_order := Some (ms_order student),
                               info_name := Some (ms_name student)\<rparr>" "[]" roster]
  by (simp_all add: init_def load_master_list_def)

lemma total_students_length:
  "total_students (get_statistics rnd self) = length (student_scores self)"
  by (simp add: get_statistics_def Let_def)

text \<open>
  Claim C2, amended. With a master list loaded and \<open>scores_only\<close> left to its default,
  an entry that carries a student id which is not a key of the dictionary is counted as
  unmatched and changes nothing. If no entry of a merged result is in privacy mode (an
  order without a student id), then after \<open>batch_add_results\<close> the keys are exactly the
  student ids of the master list, each once, and \<open>total_students\<close> is the number of
  distinct student ids of the master list.
\<close>

theorem roster_enforcement:
  assumes "\<forall>r\<in>set docs. success r \<longrightarrow>
             (\<forall>sd\<in>set (data_scores r). sd_student_id sd = None \<longrightarrow> sd_order sd = None)"
  shows "(\<forall>d m u sd. sd_student_id sd \<noteq> None \<and> \<not> contains d (sd_student_id sd) \<longrightarrow>
            add_score_data True True (d, m, u) sd = (d, m, u + 1))
    \<and> has_master_list (fst (batch_add_results (init (Some roster)) docs))
    \<and> set (map fst (student_scores (fst (batch_add_results (init (Some roster)) docs))))
        = Some ` ms_student_id ` set roster
    \<and> distinct (map fst (student_scores (fst (batch_add_results (init (Some roster)) docs))))
    \<and> total_students (get_statistics rnd (fst (batch_add_results (init (Some roster)) docs)))
        = card (ms_student_id ` set roster)"
proof -
  define K where "K = map fst (student_scores (init (Some roster)))"
  define I :: "aggregator \<Rightarrow> bool"
    where "I = (\<lambda>s. has_master_list s \<and> map fst (student_scores s) = K)"
  have "I (fst (batch_add_results (init (Some roster)) docs))"
  proof (rule batch_invariant)
    show "I (init (Some roster))" unfolding I_def K_def using init_keys(3) by blast
  next
    fix s r
    assume s: "I s" and r: "r \<in> set docs"
    show "I (fst (add_ocr_result s r None))"
    proof (cases "success r")
      case True
      have "success r \<longrightarrow>
          (\<forall>sd\<in>set (data_scores r). sd_student_id sd = None \<longrightarrow> sd_order sd = None)"
        using assms r by (rule bspec)
      then have "\<forall>sd\<in>set (data_scores r). sd_student_id sd = None \<longrightarrow> sd_order sd = None"
        using True by (rule mp)
      then have np: "\<forall>sd\<in>set (data_scores r). sd_student_id sd \<noteq> None \<or> sd_order sd = None"
        by (simp only: imp_conv_disj)
      have h: "has_master_list s" and k: "map fst (student_scores s) = K"
        using s unfolding I_def by blast+
      have "map fst (student_scores (fst (add_ocr_result s r None)))
          = map fst (fst (foldl (add_score_data True True) (student_scores s, 0, 0) (data_scores r)))"
        unfolding add_ocr_result_student_scores merge_scores_def using True h by simp
      also have "\<dots> = map fst (student_scores s)"
        using foldl_roster_keys [OF np, of "(student_scores s, 0, 0)"] by simp
      finally have "map fst (student_scores (fst (add_ocr_result s r None))) = K"
        using k by simp
      then show ?thesis
        unfolding I_def add_ocr_result_has_master_list using h by blast
    next
      case False
      then have "fst (add_ocr_result s r None) = s" by (simp add: add_ocr_result_def)
      then show ?thesis using s by simp
    qed
  qed
  then have inv: "has_master_list (fst (batch_add_results (init (Some roster)) docs))"
    "map fst (student_scores (fst (batch_add_results (init (Some roster)) docs))) = K"
    unfolding I_def by blast+
  have Kset: "set K = Some ` ms_student_id ` set roster" and Kd: "distinct K"
    unfolding K_def by (rule init_keys)+
  have "length (student_scores (fst (batch_add_results (init (Some roster)) docs))) = length K"
    using inv(2) by (metis length_map)
  also have "\<dots> = card (set K)" using Kd by (simp add: distinct_card)
  also have "\<dots> = card (ms_student_id ` set roster)"
    unfolding Kset by (rule card_image) simp
  finally have len: "length (student_scores (fst (batch_add_results (init (Some roster)) docs)))
    = card (ms_student_id ` set roster)" .
  have rej: "\<forall>d m u sd. sd_student_id sd \<noteq> None \<and> \<not> contains d (sd_student_id sd) \<longrightarrow>
            add_score_data True True (d, m, u) sd = (d, m, u + 1)"
    by (simp add: add_score_data_reject)
  have tot: "total_students (get_statistics rnd (fst (batch_add_results (init (Some roster)) docs)))
        = card (ms_student_id ` set roster)"
    unfolding total_students_length by (rule len)
  show ?thesis
    unfolding inv(2) using rej inv(1) Kset Kd tot by blast
qed

text \<open>
  A master list of one student and one result with an entry of that student and an entry
  of an unknown student id: one student remains, and the unknown entry is counted as
  unmatched.
\<close>

theorem roster_enforcement_witness:
  "total_students (get_statistics exact
      (fst (batch_add_results (init (Some [\<lparr>ms_order = 1, ms_student_id = ''A001'', ms_name = ''Ann''\<rparr>]))
         [\<lparr>success = True, file_name = ''a.pdf'',
             data_scores = [\<lparr>sd_student_id = Some ''A001'', sd_order = Some 1, sd_name = Some ''Ann'',
             sd_score = Some 8\<rparr>, \<lparr>sd_student_id = Some ''B999'', sd_order = Some 2,
             sd_name = Some ''Bob'', sd_score = Some 3\<rparr>]\<rparr>]))) = 1
   \<and> map fst (student_scores
      (fst (batch_add_results (init (Some [\<lparr>ms_order = 1, ms_student_id = ''A001'', ms_name = ''Ann''\<rparr>]))
         [\<lparr>success = True, file_name = ''a.pdf'',
             data_scores = [\<lparr>sd_student_id = Some ''A001'', sd_order = Some 1, sd_name = Some ''Ann'',
             sd_score = Some 8\<rparr>, \<lparr>sd_student_id = Some ''B999'', sd_order = Some 2,
             sd_name = Some ''Bob'', sd_score = Some 3\<rparr>]\<rparr>]))) = [Some ''A001'']
   \<and> add_score_data True True ([(Some ''A001'', \<lparr>info_order = Some 1, info_name = Some ''Ann'',
       info_scores = []\<rparr>)], 0, 0)
        \<lparr>sd_student_id = Some ''B999'', sd_order = Some 2, sd_name = Some ''Bob'', sd_score = Some 3\<rparr>
      = ([(Some ''A001'', \<lparr>info_order = Some 1, info_name = Some ''Ann'', info_scores = []\<rparr>)], 0, 1)"
proof -
  note t = roster_enforcement [of "[\<lparr>success = True, file_name = ''a.pdf'',
      data_scores = [\<lparr>sd_student_id = Some ''A001'', sd_order = Some 1, sd_name = Some ''Ann'',
      sd_score = Some 8\<rparr>, \<lparr>sd_student_id = Some ''B999'', sd_order = Some 2,
      sd_name = Some ''Bob'', sd_score = Some 3\<rparr>]\<rparr>]"
      "[\<lparr>ms_order = 1, ms_student_id = ''A001'', ms_name = ''Ann''\<rparr>]" exact]
  have h: "\<forall>r\<in>set [\<lparr>success = True, file_name = ''a.pdf'',
      data_scores = [\<lparr>sd_student_id = Some ''A001'', sd_order = Some 1, sd_name = Some ''Ann'',
      sd_score = Some 8\<rparr>, \<lparr>sd_student_id = Some ''B999'', sd_order = Some 2,
      sd_name = Some ''Bob'', sd_score = Some 3\<rparr>]\<rparr>]. success r \<longrightarrow>
             (\<forall>sd\<in>set (data_scores r). sd_student_id sd = None \<longrightarrow> sd_order sd = None)"
    by simp
  have 1: "total_students (get_statistics exact
      (fst (batch_add_results (init (Some [\<lparr>ms_order = 1, ms_student_id = ''A001'', ms_name = ''Ann''\<rparr>]))
         [\<lparr>success = True, file_name = ''a.pdf'',
             data_scores = [\<lparr>sd_student_id = Some ''A001'', sd_order = Some 1, sd_name = Some ''Ann'',
             sd_score = Some 8\<rparr>, \<lparr>sd_student_id = Some ''B999'', sd_order = Some 2,
             sd_name = Some ''Bob'', sd_score = Some 3\<rparr>]\<rparr>]))) = 1"
    using t [OF h] by simp
  have 2: "map fst (student_scores
      (fst (batch_add_results (init (Some [\<lparr>ms_order = 1, ms_student_id = ''A001'', ms_name = ''Ann''\<rparr>]))
         [\<lparr>success = True, file_name = ''a.pdf'',
             data_scores = [\<lparr>sd_student_id = Some ''A001'', sd_order = Some 1, sd_name = Some ''Ann'',
             sd_score = Some 8\<rparr>, \<lparr>sd_student_id = Some ''B999'', sd_order = Some 2,
             sd_name = Some ''Bob'', sd_score = Some 3\<rparr>]\<rparr>]))) = [Some ''A001'']"
    by code_simp
  have 3: "add_score_data True True ([(Some ''A001'', \<lparr>info_order = Some 1, info_name = Some ''Ann'',
      info_scores = []\<rparr>)], 0, 0)
        \<lparr>sd_student_id = Some ''B999'', sd_order = Some 2, sd_name = Some ''Bob'', sd_score = Some 3\<rparr>
      = ([(Some ''A001'', \<lparr>info_order = Some 1, info_name = Some ''Ann'', info_scores = []\<rparr>)], 0, 0 + 1)"
    using t [OF h, THEN conjunct1, rule_format,
        of "\<lparr>sd_student_id = Some ''B999'', sd_order = Some 2, sd_name = Some ''Bob'',
            sd_score = Some 3\<rparr>" "[(Some ''A001'', \<lparr>info_order = Some 1,
            info_name = Some ''Ann'', info_scores = []\<rparr>)]" 0 0]
    by (simp add: contains_def)
  from 1 2 3 show ?thesis by simp
qed

text \<open>
  Claim C2 as stated fails: the privacy branch is tested before the master list, so an
  entry with an order and no student id creates the entity \<open>order_2\<close> next to the one
  student of the master list, and \<open>total_students\<close> is \<open>2\<close>.
\<close>

theorem roster_enforcement_counterexample:
  "map fst (student_scores
      (fst (batch_add_results (init (Some [\<lparr>ms_order = 1, ms_student_id = ''A001'', ms_name = ''Ann''\<rparr>]))
         [\<lparr>success = True, file_name = ''a.pdf'', data_scores = [\<lparr>sd_student_id = None,
             sd_order = Some 2, sd_name = None, sd_score = Some 5\<rparr>]\<rparr>]))) = [Some ''A001'',
             Some ''order_2'']
   \<and> total_students (get_statistics exact
      (fst (batch_add_results (init (Some [\<lparr>ms_order = 1, ms_student_id = ''A001'', ms_name = ''Ann''\<rparr>]))
         [\<lparr>success = True, file_name = ''a.pdf'', data_scores = [\<lparr>sd_student_id = None,
             sd_order = Some 2, sd_name = None, sd_score = Some 5\<rparr>]\<rparr>]))) = 2
   \<and> length [\<lparr>ms_order = 1, ms_student_id = ''A001'', ms_name = ''Ann''\<rparr>] = 1"
  by code_simp

lemma add_score_data_no_None_key:
  assumes "\<not> contains (fst st) None"
  shows "\<not> contains (fst (add_score_data True True st sd)) None"
proof -
  obtain d m u where st: "st = (d, m, u)" by (cases st)
  show ?thesis using assms
    by (auto simp: st add_score_data_def Let_def contains_modify)
qed

lemma foldl_no_None_key:
  assumes "\<not> contains (fst st) None"
  shows "\<not> contains (fst (foldl (add_score_data True True) st sds)) None"
  using assms by (induction sds arbitrary: st) (simp_all add: add_score_data_no_None_key)

lemma batch_has_master_list:
  "has_master_list (fst (batch_add_results self docs)) = has_master_list self"
proof -
  define I :: "aggregator \<Rightarrow> bool" where "I = (\<lambda>s. has_master_list s = has_master_list self)"
  have "I (fst (batch_add_results self docs))"
    by (rule batch_invariant) (simp_all add: I_def add_ocr_result_has_master_list)
  then show ?thesis by (simp add: I_def)
qed

lemma roster_no_None_key:
  "\<not> contains (student_scores (fst (batch_add_results (init (Some roster)) docs))) None"
proof -
  define I :: "aggregator \<Rightarrow> bool"
    where "I = (\<lambda>s. has_master_list s \<and> \<not> contains (student_scores s) None)"
  have "I (fst (batch_add_results (init (Some roster)) docs))"
  proof (rule batch_invariant)
    have "None \<notin> Some ` ms_student_id ` set roster" by auto
    then show "I (init (Some roster))"
      unfolding I_def contains_def init_keys(1) using init_keys(3) by simp
  next
    fix s r
    assume s: "I s"
    then have h: "has_master_list s" and n: "\<not> contains (fst (student_scores s, 0::nat, 0::nat)) None"
      by (simp_all add: I_def)
    show "I (fst (add_ocr_result s r None))"
      using foldl_no_None_key [OF n, of "data_scores r"] h s
      by (simp add: I_def add_ocr_result_has_master_list add_ocr_result_student_scores
          merge_scores_def)
  qed
  then show ?thesis by (simp add: I_def)
qed

text \<open>
  Claim C3, amended. With a master list loaded and \<open>scores_only\<close> left to its default,
  no state reached by \<open>batch_add_results\<close> has an entity under the key \<open>None\<close>, and an
  entry with neither student id nor order is counted as unmatched, changes no entity and
  creates none; the loop goes on with the entries after it.
\<close>

theorem invalid_observation_rejected:
  assumes "sd_student_id sd = None" and "sd_order sd = None"
  shows "has_master_list (fst (batch_add_results (init (Some roster)) docs))
    \<and> \<not> contains (student_scores (fst (batch_add_results (init (Some roster)) docs))) None
    \<and> (\<forall>d m u. \<not> contains d None \<longrightarrow>
          add_score_data True True (d, m, u) sd = (d, m, u + 1))
    \<and> (\<forall>d pre post. \<not> contains d None \<longrightarrow>
          merge_scores True True d (pre @ sd # post) =
            (case merge_scores True True d pre of
               (d', matched, unmatched) \<Rightarrow>
                 foldl (add_score_data True True) (d', matched, unmatched + 1) post))"
proof (intro conjI allI impI)
  show "has_master_list (fst (batch_add_results (init (Some roster)) docs))"
    by (simp add: batch_has_master_list init_keys(3))
  show "\<not> contains (student_scores (fst (batch_add_results (init (Some roster)) docs))) None"
    by (rule roster_no_None_key)
next
  fix d :: student_scores and m u :: nat
  assume "\<not> contains d None"
  then show "add_score_data True True (d, m, u) sd = (d, m, u + 1)"
    using assms by (simp add: add_score_data_reject)
next
  fix d :: student_scores and pre post :: "score_data list"
  assume d: "\<not> contains d None"
  obtain d' m' u' where p: "foldl (add_score_data True True) (d, 0, 0) pre = (d', m', u')"
    by (cases "foldl (add_score_data True True) (d, 0, 0) pre")
  have "\<not> contains d' None"
    using foldl_no_None_key [of "(d, 0, 0)" pre] d p by simp
  then have "add_score_data True True (d', m', u') sd = (d', m', u' + 1)"
    using assms by (simp add: add_score_data_reject)
  then show "merge_scores True True d (pre @ sd # post) =
            (case merge_scores True True d pre of
               (d', matched, unmatched) \<Rightarrow>
                 foldl (add_score_data True True) (d', matched, unmatched + 1) post)"
    by (simp add: merge_scores_def p)
qed

text \<open>
  With a master list, an entry without student id and order followed by an entry of the
  student of the master list: one unmatched, one matched.
\<close>

theorem invalid_observation_rejected_witness:
  "merge_scores True True [(Some ''A001'', \<lparr>info_order = Some 1, info_name = Some ''Ann'', info_scores = []\<rparr>)]
     [\<lparr>sd_student_id = None, sd_order = None, sd_name = None, sd_score = Some 7\<rparr>,
         \<lparr>sd_student_id = Some ''A001'', sd_order = Some 1, sd_name = Some ''Ann'',
         sd_score = Some 8\<rparr>]
   = ([(Some ''A001'', \<lparr>info_order = Some 1, info_name = Some ''Ann'', info_scores = [Some 8]\<rparr>)], 1, 1)"
proof -
  have c: "\<not> contains [(Some ''A001'', \<lparr>info_order = Some 1, info_name = Some ''Ann'',
      info_scores = []\<rparr>)] None"
    by (simp add: contains_def)
  have a: "sd_student_id \<lparr>sd_student_id = None, sd_order = None, sd_name = None, sd_score = Some 7\<rparr> = None"
    "sd_order \<lparr>sd_student_id = None, sd_order = None, sd_name = None, sd_score = Some 7\<rparr> = None"
    by simp_all
  note t = invalid_observation_rejected [OF a, of "[]" "[]"]
  note u = t [THEN conjunct2, THEN conjunct2, THEN conjunct2, rule_format,
      of "[(Some ''A001'', \<lparr>info_order = Some 1, info_name = Some ''Ann'', info_scores = []\<rparr>)]" "[]"
         "[\<lparr>sd_student_id = Some ''A001'', sd_order = Some 1, sd_name = Some ''Ann'', sd_score = Some 8\<rparr>]", OF c]
  show ?thesis
    using u by (simp add: merge_scores_def add_score_data_def contains_def append_score_def)
qed

text \<open>
  Claim C3 as stated fails without a master list: the entry with neither student id nor
  order is merged, as matched, under the key \<open>None\<close>, an entity created for it.
\<close>

theorem invalid_observation_rejected_counterexample:
  "add_ocr_result (init None)
     \<lparr>success = True, file_name = ''a.pdf'', data_scores = [\<lparr>sd_student_id = None,
         sd_order = None, sd_name = None, sd_score = Some 7\<rparr>]\<rparr> None
   = (\<lparr>student_scores = [(None, \<lparr>info_order = None, info_name = None, info_scores = [Some 7]\<rparr>)],
       processed_files = [''a.pdf''], has_master_list = False\<rparr>, True)
   \<and> merge_scores False False []
     [\<lparr>sd_student_id = None, sd_order = None, sd_name = None, sd_score = Some 7\<rparr>]
   = ([(None, \<lparr>info_order = None, info_name = None, info_scores = [Some 7]\<rparr>)], 1, 0)"
  by code_simp

lemma clear_eq:
  "clear self = \<lparr>student_scores = [], processed_files = [],
                   has_master_list = has_master_list self\<rparr>"
  by (cases self) (simp add: clear_def)

lemma init_empty:
  "init None = \<lparr>student_scores = [], processed_files = [], has_master_list = False\<rparr>"
  "init (Some []) = \<lparr>student_scores = [], processed_files = [], has_master_list = True\<rparr>"
  by (simp_all add: init_def load_master_list_def)

text \<open>
  Claim C4, amended. For an aggregator made without a master list (or with a master list
  of no students), merging a list of results, clearing and merging the list again gives
  the state and the count of merging it once into a new aggregator.
\<close>

theorem replay_after_clear:
  assumes "master_list = None \<or> master_list = Some []"
  shows "batch_add_results (clear (fst (batch_add_results (init master_list) docs))) docs
       = batch_add_results (init master_list) docs"
proof -
  have "clear (fst (batch_add_results (init master_list) docs)) = init master_list"
    using assms by (auto simp: clear_eq batch_has_master_list init_empty)
  then show ?thesis by simp
qed

text \<open>Two results for one student, merged, cleared and merged again, without master list.\<close>

theorem replay_after_clear_witness:
  "batch_add_results (clear (fst (batch_add_results (init None)
     [\<lparr>success = True, file_name = ''a.pdf'', data_scores = [\<lparr>sd_student_id = Some ''A001'',
         sd_order = Some 1, sd_name = Some ''Ann'', sd_score = Some 5\<rparr>]\<rparr>,
      \<lparr>success = True, file_name = ''b.pdf'', data_scores = [\<lparr>sd_student_id = Some ''A001'',
          sd_order = Some 1, sd_name = Some ''Ann'', sd_score = Some 6\<rparr>]\<rparr>])))
     [\<lparr>success = True, file_name = ''a.pdf'', data_scores = [\<lparr>sd_student_id = Some ''A001'',
         sd_order = Some 1, sd_name = Some ''Ann'', sd_score = Some 5\<rparr>]\<rparr>,
      \<lparr>success = True, file_name = ''b.pdf'', data_scores = [\<lparr>sd_student_id = Some ''A001'',
          sd_order = Some 1, sd_name = Some ''Ann'', sd_score = Some 6\<rparr>]\<rparr>]
   = (\<lparr>student_scores = [(Some ''A001'', \<lparr>info_order = Some 1, info_name = Some ''Ann'',
       info_scores = [Some 5, Some 6]\<rparr>)],
       processed_files = [''a.pdf'', ''b.pdf''], has_master_list = False\<rparr>, 2)"
proof -
  have "batch_add_results (init None)
     [\<lparr>success = True, file_name = ''a.pdf'', data_scores = [\<lparr>sd_student_id = Some ''A001'',
         sd_order = Some 1, sd_name = Some ''Ann'', sd_score = Some 5\<rparr>]\<rparr>,
      \<lparr>success = True, file_name = ''b.pdf'', data_scores = [\<lparr>sd_student_id = Some ''A001'',
          sd_order = Some 1, sd_name = Some ''Ann'', sd_score = Some 6\<rparr>]\<rparr>]
   = (\<lparr>student_scores = [(Some ''A001'', \<lparr>info_order = Some 1, info_name = Some ''Ann'',
       info_scores = [Some 5, Some 6]\<rparr>)],
       processed_files = [''a.pdf'', ''b.pdf''], has_master_list = False\<rparr>, 2)"
    by code_simp
  then show ?thesis
    using replay_after_clear [of None "[\<lparr>success = True, file_name = ''a.pdf'',
        data_scores = [\<lparr>sd_student_id = Some ''A001'', sd_order = Some 1, sd_name = Some ''Ann'',
        sd_score = Some 5\<rparr>]\<rparr>,
      \<lparr>success = True, file_name = ''b.pdf'', data_scores = [\<lparr>sd_student_id = Some ''A001'',
          sd_order = Some 1, sd_name = Some ''Ann'', sd_score = Some 6\<rparr>]\<rparr>]"]
    by simp
qed

text \<open>
  Claim C4 as stated fails with a master list: \<open>clear\<close> removes the entities of the
  master list and keeps the flag, so the second merge rejects every entry and no entity
  exists, where a new aggregator holds the scores \<open>[5, 6]\<close> of the student.
\<close>

theorem replay_after_clear_counterexample:
  "student_scores (fst (batch_add_results (init (Some [\<lparr>ms_order = 1, ms_student_id = ''A001'',
      ms_name = ''Ann''\<rparr>]))
     [\<lparr>success = True, file_name = ''a.pdf'', data_scores = [\<lparr>sd_student_id = Some ''A001'',
         sd_order = Some 1, sd_name = Some ''Ann'', sd_score = Some 5\<rparr>]\<rparr>,
      \<lparr>success = True, file_name = ''b.pdf'', data_scores = [\<lparr>sd_student_id = Some ''A001'',
          sd_order = Some 1, sd_name = Some ''Ann'', sd_score = Some 6\<rparr>]\<rparr>]))
   = [(Some ''A001'', \<lparr>info_order = Some 1, info_name = Some ''Ann'', info_scores = [Some 5, Some 6]\<rparr>)]
   \<and> student_scores (fst (batch_add_results
       (clear (fst (batch_add_results (init (Some [\<lparr>ms_order = 1, ms_student_id = ''A001'', ms_name = ''Ann''\<rparr>]))
     [\<lparr>success = True, file_name = ''a.pdf'', data_scores = [\<lparr>sd_student_id = Some ''A001'',
         sd_order = Some 1, sd_name = Some ''Ann'', sd_score = Some 5\<rparr>]\<rparr>,
      \<lparr>success = True, file_name = ''b.pdf'', data_scores = [\<lparr>sd_student_id = Some ''A001'',
          sd_order = Some 1, sd_name = Some ''Ann'', sd_score = Some 6\<rparr>]\<rparr>])))
     [\<lparr>success = True, file_name = ''a.pdf'', data_scores = [\<lparr>sd_student_id = Some ''A001'',
         sd_order = Some 1, sd_name = Some ''Ann'', sd_score = Some 5\<rparr>]\<rparr>,
      \<lparr>success = True, file_name = ''b.pdf'', data_scores = [\<lparr>sd_student_id = Some ''A001'',
          sd_order = Some 1, sd_name = Some ''Ann'', sd_score = Some 6\<rparr>]\<rparr>]))
   = []"
  by code_simp

lemma add_score_data_privacy_keys:
  assumes "\<forall>k\<in>set (map fst (fst st)). \<exists>n. k = Some (''order_'' @ str_int n)"
  shows "\<forall>k\<in>set (map fst (fst (add_score_data True True st sd))).
           \<exists>n. k = Some (''order_'' @ str_int n)"
proof -
  obtain d m u where st: "st = (d, m, u)" by (cases st)
  show ?thesis
  proof (cases "sd_student_id sd = None \<and> sd_order sd \<noteq> None")
    case True
    then obtain n where n: "sd_order sd = Some n" by auto
    show ?thesis using assms True
      by (auto simp: st n add_score_data_def Let_def keys_modify simp del: set_map)
  next
    case False
    then have "map fst (fst (add_score_data True True (d, m, u) sd)) = map fst d"
      by (intro add_score_data_roster_keys) auto
    then show ?thesis using assms by (simp add: st del: set_map)
  qed
qed

lemma foldl_privacy_keys:
  assumes "\<forall>k\<in>set (map fst (fst st)). \<exists>n. k = Some (''order_'' @ str_int n)"
  shows "\<forall>k\<in>set (map fst (fst (foldl (add_score_data True True) st sds))).
           \<exists>n. k = Some (''order_'' @ str_int n)"
  using assms
proof (induction sds arbitrary: st)
  case Nil
  then show ?case by simp
next
  case (Cons sd sds)
  show ?case
    using Cons.IH [OF add_score_data_privacy_keys [OF Cons.prems, of sd]] by simp
qed

text \<open>
  \<open>clear\<close> empties the dictionary and the list of processed files and keeps
  \<open>has_master_list\<close>. For an aggregator made with a master list, after \<open>clear\<close> the flag
  is set, so \<open>scores_only\<close> defaults to true; an entry that carries a student id never
  creates an entity, and it is counted as unmatched when its student id is not a key of
  the dictionary. A result whose entries all carry a student id, merged next, leaves the
  dictionary empty with every entry unmatched. Every key of a later state is a key
  \<open>order_<n>\<close> of the privacy mode.
\<close>

lemma clear_rejects_keyed_entries:
  assumes "self = clear (fst (batch_add_results (init (Some roster)) docs))"
  shows "has_master_list self \<and> student_scores self = [] \<and> processed_files self = []
    \<and> (\<forall>d m u sd. sd_student_id sd \<noteq> None \<longrightarrow>
          map fst (fst (add_score_data True True (d, m, u) sd)) = map fst d
          \<and> (\<not> contains d (sd_student_id sd) \<longrightarrow>
               add_score_data True True (d, m, u) sd = (d, m, u + 1)))
    \<and> (\<forall>ocr. success ocr \<and> (\<forall>sd\<in>set
        (data_scores ocr). sd_student_id sd \<noteq> None) \<longrightarrow>
          add_ocr_result self ocr None =
            (self\<lparr>processed_files := [file_name ocr]\<rparr>, True)
          \<and> merge_scores True True (student_scores self) (data_scores ocr) =
              ([], 0, length (data_scores ocr)))
    \<and> (\<forall>docs'. \<forall>k\<in>set (map fst (student_scores (fst (batch_add_results self docs')))).
          \<exists>n. k = Some (''order_'' @ str_int n))"
proof (intro conjI allI impI ballI)
  have self: "self = \<lparr>student_scores = [], processed_files = [], has_master_list = True\<rparr>"
    unfolding assms clear_eq batch_has_master_list using init_keys(3) [of roster] by simp
  show "has_master_list self" and "student_scores self = []" and "processed_files self = []"
    by (simp_all add: self)
next
  fix d :: student_scores and m u :: nat and sd :: score_data
  assume k: "sd_student_id sd \<noteq> None"
  show "map fst (fst (add_score_data True True (d, m, u) sd)) = map fst d"
    using k by (intro add_score_data_roster_keys) simp
next
  fix d :: student_scores and m u :: nat and sd :: score_data
  assume k: "sd_student_id sd \<noteq> None" and "\<not> contains d (sd_student_id sd)"
  then show "add_score_data True True (d, m, u) sd = (d, m, u + 1)"
    by (intro add_score_data_reject) simp_all
next
  fix ocr :: ocr_result
  assume a: "success ocr \<and> (\<forall>sd\<in>set (data_scores ocr). sd_student_id sd \<noteq> None)"
  have self: "self = \<lparr>student_scores = [], processed_files = [], has_master_list = True\<rparr>"
    unfolding assms clear_eq batch_has_master_list using init_keys(3) [of roster] by simp
  have m: "merge_scores True True [] (data_scores ocr) = ([], 0, length (data_scores ocr))"
    unfolding merge_scores_def
    using foldl_reject_all [of "data_scores ocr" "[]" 0 0] a by (simp add: contains_def)
  then show "merge_scores True True (student_scores self) (data_scores ocr) =
              ([], 0, length (data_scores ocr))"
    by (simp add: self)
  show "add_ocr_result self ocr None = (self\<lparr>processed_files := [file_name ocr]\<rparr>, True)"
    using a m by (simp add: add_ocr_result_def self)
next
  fix docs' k
  assume k: "k \<in> set (map fst (student_scores (fst (batch_add_results self docs'))))"
  have self: "self = \<lparr>student_scores = [], processed_files = [], has_master_list = True\<rparr>"
    unfolding assms clear_eq batch_has_master_list using init_keys(3) [of roster] by simp
  define I :: "aggregator \<Rightarrow> bool" where "I = (\<lambda>s. has_master_list s \<and>
      (\<forall>k\<in>set (map fst (student_scores s)). \<exists>n. k = Some (''order_'' @ str_int n)))"
  have "I (fst (batch_add_results self docs'))"
  proof (rule batch_invariant)
    show "I self" by (simp add: I_def self)
  next
    fix s r
    assume s: "I s"
    then have hs: "has_master_list s"
      and ks: "\<forall>k\<in>set (map fst (fst (student_scores s, 0::nat, 0::nat))).
                  \<exists>n. k = Some (''order_'' @ str_int n)"
      by (simp_all add: I_def)
    show "I (fst (add_ocr_result s r None))"
      unfolding I_def add_ocr_result_has_master_list add_ocr_result_student_scores
        merge_scores_def
      using foldl_privacy_keys [OF ks, of "data_scores r"] hs ks by simp
  qed
  then show "\<exists>n. k = Some (''order_'' @ str_int n)"
    using k unfolding I_def by blast
qed

text \<open>
  Claim C10. The code breaks it. The roster branch is commented as the test whether the
  student is in the master list, and tests whether the student id is a key of the
  dictionary, which also holds the entities of the privacy mode. After \<open>clear\<close> of an
  aggregator made with a master list (flag set, no entity), a result with an entry of
  order \<open>5\<close> without student id and an entry of student id \<open>order_5\<close>: the first creates
  the entity \<open>order_5\<close>, and the second is matched to it (two matched, none unmatched),
  where the claim has it rejected as unmatched.
\<close>

theorem clear_then_keyed_entry_matched:
  "has_master_list (clear (init (Some [\<lparr>ms_order = 1, ms_student_id = ''A001'', ms_name = ''Ann''\<rparr>])))
   \<and> student_scores (clear (init (Some [\<lparr>ms_order = 1, ms_student_id = ''A001'', ms_name = ''Ann''\<rparr>]))) = []
   \<and> add_ocr_result (clear (init (Some [\<lparr>ms_order = 1, ms_student_id = ''A001'', ms_name = ''Ann''\<rparr>])))
       \<lparr>success = True, file_name = ''a.pdf'', data_scores =
          [\<lparr>sd_student_id = None, sd_order = Some 5, sd_name = None, sd_score = Some 1\<rparr>,
           \<lparr>sd_student_id = Some ''order_5'', sd_order = Some 5, sd_name = None, sd_score = Some 2\<rparr>]\<rparr> None
     = (\<lparr>student_scores = [(Some ''order_5'', \<lparr>info_order = Some 5, info_name = None,
         info_scores = [Some 1, Some 2]\<rparr>)],
         processed_files = [''a.pdf''], has_master_list = True\<rparr>, True)
   \<and> merge_scores True True []
       [\<lparr>sd_student_id = None, sd_order = Some 5, sd_name = None, sd_score = Some 1\<rparr>,
        \<lparr>sd_student_id = Some ''order_5'', sd_order = Some 5, sd_name = None, sd_score = Some 2\<rparr>]
     = ([(Some ''order_5'', \<lparr>info_order = Some 5, info_name = None, info_scores = [Some 1, Some 2]\<rparr>)], 2, 0)"
  by code_simp

lemma map_of_modify:
  "map_of (modify k f d) key =
     (if key = k then Some (f (case map_of d k of None \<Rightarrow> default_info | Some v \<Rightarrow> v))
      else map_of d key)"
  by (simp add: modify_map_of)

lemma modify_stable:
  assumes "map_of d key = Some e"
    and "\<And>i. prefix (info_scores i) (info_scores (f i))"
    and "\<And>i. info_order i \<noteq> None \<Longrightarrow>
           info_order (f i) = info_order i \<and> info_name (f i) = info_name i"
  shows "\<exists>e'. map_of (modify k f d) key = Some e'
           \<and> prefix (info_scores e) (info_scores e')
           \<and> (info_order e \<noteq> None \<longrightarrow> info_order e' = info_order e \<and> info_name e' = info_name e)"
proof (cases "key = k")
  case True
  then have "map_of (modify k f d) key = Some (f e)"
    using assms(1) by (simp add: map_of_modify)
  then show ?thesis using assms(2) [of e] assms(3) [of e] by simp
next
  case False
  then have "map_of (modify k f d) key = Some e"
    using assms(1) by (simp add: map_of_modify)
  then show ?thesis by simp
qed

lemma add_score_data_privacy:
  assumes "sd_student_id sd = None" and "sd_order sd = Some n"
  shows "add_score_data so ml (d, m, u) sd =
    (modify (Some (''order_'' @ str_int n))
       (append_score (sd_score sd) \<circ>
          (\<lambda>i. if info_order i = None
               then i\<lparr>info_order := Some n, info_name := None\<rparr> else i)) d,
     m + 1, u)"
  using assms by (simp add: add_score_data_def Let_def modify_modify)

lemma add_score_data_roster:
  assumes "sd_student_id sd \<noteq> None \<or> sd_order sd = None"
  shows "add_score_data True True (d, m, u) sd =
    (if contains d (sd_student_id sd)
     then (modify (sd_student_id sd) (append_score (sd_score sd)) d, m + 1, u)
     else (d, m, u + 1))"
  using assms by (cases "sd_student_id sd"; cases "sd_order sd")
    (simp_all add: add_score_data_def Let_def)

lemma add_score_data_open:
  assumes "sd_student_id sd \<noteq> None \<or> sd_order sd = None" and "\<not> (so \<and> ml)"
  shows "add_score_data so ml (d, m, u) sd =
    (modify (sd_student_id sd)
       (append_score (sd_score sd) \<circ>
          (\<lambda>i. if info_order i = None
               then i\<lparr>info_order := sd_order sd, info_name := sd_name sd\<rparr> else i)) d,
     m + 1, u)"
proof -
  have c1: "(sd_student_id sd = None \<and> sd_order sd \<noteq> None) = False"
    using assms(1) by auto
  have c2: "(so \<and> ml) = False"
    using assms(2) by simp
  show ?thesis
    unfolding add_score_data_def Let_def prod.case c1 c2 if_False modify_modify by simp
qed

lemma add_score_data_shape:
  "fst (add_score_data so ml (d, m, u) sd) = d
   \<or> (\<exists>k new_order new_name.
        fst (add_score_data so ml (d, m, u) sd) =
          modify k (append_score (sd_score sd) \<circ>
                    (\<lambda>i. if info_order i = None
                         then i\<lparr>info_order := new_order, info_name := new_name\<rparr> else i)) d)
   \<or> (\<exists>k. fst (add_score_data so ml (d, m, u) sd) = modify k (append_score (sd_score sd)) d)"
proof (cases "sd_student_id sd \<noteq> None \<or> sd_order sd = None")
  case False
  then obtain n where "sd_student_id sd = None" "sd_order sd = Some n" by auto
  then have "fst (add_score_data so ml (d, m, u) sd) =
      modify (Some (''order_'' @ str_int n))
        (append_score (sd_score sd) \<circ>
           (\<lambda>i. if info_order i = None
                then i\<lparr>info_order := Some n, info_name := None\<rparr> else i)) d"
    by (simp only: add_score_data_privacy fst_conv)
  then show ?thesis by blast
next
  case True
  note np = this
  show ?thesis
  proof (cases "so \<and> ml")
    case True
    then have "fst (add_score_data so ml (d, m, u) sd) = d
      \<or> fst (add_score_data so ml (d, m, u) sd) =
          modify (sd_student_id sd) (append_score (sd_score sd)) d"
      using add_score_data_roster [OF np, of d m u] by (cases "contains d (sd_student_id sd)") simp_all
    then show ?thesis by blast
  next
    case False
    have "fst (add_score_data so ml (d, m, u) sd) =
      modify (sd_student_id sd)
        (append_score (sd_score sd) \<circ>
           (\<lambda>i. if info_order i = None
                then i\<lparr>info_order := sd_order sd, info_name := sd_name sd\<rparr> else i)) d"
      by (simp only: add_score_data_open [OF np False] fst_conv)
    then show ?thesis by blast
  qed
qed

lemma add_score_data_stable:
  assumes "map_of (fst st) key = Some e"
  shows "\<exists>e'. map_of (fst (add_score_data so ml st sd)) key = Some e'
           \<and> prefix (info_scores e) (info_scores e')
           \<and> (info_order e \<noteq> None \<longrightarrow> info_order e' = info_order e \<and> info_name e' = info_name e)"
proof -
  obtain d m u where st: "st = (d, m, u)" by (cases st)
  have e: "map_of d key = Some e" using assms by (simp add: st)
  from add_score_data_shape [of so ml d m u sd] show ?thesis
  proof (elim disjE exE)
    assume "fst (add_score_data so ml (d, m, u) sd) = d"
    then show ?thesis using e by (simp add: st)
  next
    fix k new_order new_name
    assume a: "fst (add_score_data so ml (d, m, u) sd) =
          modify k (append_score (sd_score sd) \<circ>
                    (\<lambda>i. if info_order i = None
                         then i\<lparr>info_order := new_order, info_name := new_name\<rparr> else i)) d"
    show ?thesis
      unfolding st a
      by (rule modify_stable [OF e]) (auto simp: append_score_def)
  next
    fix k
    assume a: "fst (add_score_data so ml (d, m, u) sd) = modify k (append_score (sd_score sd)) d"
    show ?thesis
      unfolding st a
      by (rule modify_stable [OF e]) (simp_all add: append_score_def)
  qed
qed

lemma foldl_stable:
  assumes "map_of (fst st) key = Some e"
  shows "\<exists>e'. map_of (fst (foldl (add_score_data so ml) st sds)) key = Some e'
           \<and> prefix (info_scores e) (info_scores e')
           \<and> (info_order e \<noteq> None \<longrightarrow> info_order e' = info_order e \<and> info_name e' = info_name e)"
  using assms
proof (induction sds arbitrary: st e)
  case Nil
  then show ?case by simp
next
  case (Cons sd sds)
  from add_score_data_stable [OF Cons.prems, of so ml sd] obtain e1 where
    e1: "map_of (fst (add_score_data so ml st sd)) key = Some e1"
      "prefix (info_scores e) (info_scores e1)"
      "info_order e \<noteq> None \<longrightarrow> info_order e1 = info_order e \<and> info_name e1 = info_name e"
    by blast
  from Cons.IH [OF e1(1)] obtain e' where
    e': "map_of (fst (foldl (add_score_data so ml) (add_score_data so ml st sd) sds)) key = Some e'"
      "prefix (info_scores e1) (info_scores e')"
      "info_order e1 \<noteq> None \<longrightarrow> info_order e' = info_order e1 \<and> info_name e' = info_name e1"
    by blast
  have "prefix (info_scores e) (info_scores e')"
    using e1(2) e'(2) by (rule prefix_order.trans)
  moreover have "info_order e \<noteq> None \<longrightarrow> info_order e' = info_order e \<and> info_name e' = info_name e"
    using e1(3) e'(3) by auto
  ultimately show ?case using e'(1) by simp
qed

text \<open>
  Without a master list, the first entry of a student id creates the entity with the
  order, the name and the score of that entry. In every mode, an entity that exists keeps
  existing and its scores only grow (the old list is a prefix of the new one) through any
  list of entries, and an entity whose order is set (not \<open>None\<close>) keeps its order and
  name.
\<close>

lemma entity_identity_stable:
  "(\<not> contains d (Some k) \<and> sd_student_id sd = Some k \<longrightarrow>
      map_of (fst (add_score_data so False (d, m, u) sd)) (Some k) =
        Some \<lparr>info_order = sd_order sd, info_name = sd_name sd, info_scores = [sd_score sd]\<rparr>)
   \<and> (map_of d key = Some e \<longrightarrow>
      (\<exists>e'. map_of (fst (foldl (add_score_data so ml) (d, m, u) sds)) key = Some e'
         \<and> prefix (info_scores e) (info_scores e')
         \<and> (info_order e \<noteq> None \<longrightarrow>
              info_order e' = info_order e \<and> info_name e' = info_name e)))"
proof (intro conjI impI)
  assume a: "\<not> contains d (Some k) \<and> sd_student_id sd = Some k"
  then have "map_of d (Some k) = None" by (simp add: contains_map_of)
  then show "map_of (fst (add_score_data so False (d, m, u) sd)) (Some k) =
        Some \<lparr>info_order = sd_order sd, info_name = sd_name sd, info_scores = [sd_score sd]\<rparr>"
    using a by (simp add: add_score_data_def Let_def map_of_modify append_score_def default_info_def)
next
  assume "map_of d key = Some e"
  then have "map_of (fst (d, m, u)) key = Some e" by simp
  then show "\<exists>e'. map_of (fst (foldl (add_score_data so ml) (d, m, u) sds)) key = Some e'
         \<and> prefix (info_scores e) (info_scores e')
         \<and> (info_order e \<noteq> None \<longrightarrow>
              info_order e' = info_order e \<and> info_name e' = info_name e)"
    by (rule foldl_stable)
qed

text \<open>
  Claim C6. The code breaks it. The block that records order and name is commented as
  run when a student is met for the first time, and is guarded by the test that the
  recorded order is \<open>None\<close>. A first entry of a student id without order records the name
  \<open>Ann\<close> and leaves the order \<open>None\<close>, so the block runs again on the second entry of the
  student id and overwrites the name with \<open>Bob\<close> and the order with \<open>3\<close>.
\<close>

theorem first_seen_identity_overwritten:
  "merge_scores False False []
     [\<lparr>sd_student_id = Some ''A001'', sd_order = None, sd_name = Some ''Ann'', sd_score = Some 5\<rparr>]
   = ([(Some ''A001'', \<lparr>info_order = None, info_name = Some ''Ann'', info_scores = [Some 5]\<rparr>)], 1, 0)
   \<and> merge_scores False False []
     [\<lparr>sd_student_id = Some ''A001'', sd_order = None, sd_name = Some ''Ann'', sd_score = Some 5\<rparr>,
      \<lparr>sd_student_id = Some ''A001'', sd_order = Some 3, sd_name = Some ''Bob'', sd_score = Some 6\<rparr>]
   = ([(Some ''A001'', \<lparr>info_order = Some 3, info_name = Some ''Bob'', info_scores = [Some 5, Some 6]\<rparr>)], 2, 0)"
  by code_simp

lemma no_roster_no_files_no_entities:
  assumes "master_list = None \<or> master_list = Some []"
    and "processed_files (fst (batch_add_results (init master_list) docs)) = []"
  shows "student_scores (fst (batch_add_results (init master_list) docs)) = []"
proof -
  define I :: "aggregator \<Rightarrow> bool"
    where "I = (\<lambda>s. processed_files s = [] \<longrightarrow> student_scores s = [])"
  have "I (fst (batch_add_results (init master_list) docs))"
  proof (rule batch_invariant)
    show "I (init master_list)" using assms(1) by (auto simp: I_def init_empty)
  next
    fix s r
    assume "I s"
    then show "I (fst (add_ocr_result s r None))"
      by (cases "success r") (simp_all add: I_def add_ocr_result_def Let_def split: prod.splits)
  qed
  then show ?thesis using assms(2) by (simp add: I_def)
qed

lemma round_two_decimals:
  "\<bar>py_round_ndigits exact x 2 - x\<bar> \<le> 1 / 200"
  "\<exists>j::int. py_round_ndigits exact x 2 = of_int j / 100"
proof -
  have "\<bar>of_int (round_half_even (x * 100)) - x * 100\<bar> \<le> 1 / 2"
    by (rule round_half_even_nearest)
  then have "\<bar>of_int (round_half_even (x * 100)) / 100 - x\<bar> \<le> 1 / 200"
    by (simp add: abs_le_iff field_simps)
  then show "\<bar>py_round_ndigits exact x 2 - x\<bar> \<le> 1 / 200"
    by (simp add: py_round_ndigits_def exact_def)
  show "\<exists>j::int. py_round_ndigits exact x 2 = of_int j / 100"
    by (auto simp: py_round_ndigits_def exact_def)
qed

text \<open>
  Claim C5, amended. With at least one entity, \<open>get_statistics\<close> returns the number of
  entities, the number of processed files, the mean number of scores per entity rounded
  to two decimals by \<open>round\<close> (in exact arithmetic: a multiple of \<open>1/100\<close> within \<open>1/200\<close> of
  the mean), and the number of entities with as many scores as processed files. Without
  entities, the number of students, the mean and the number of complete students are
  \<open>0\<close>. For an aggregator without master list on which no result has been merged, all
  four are \<open>0\<close>.
\<close>

theorem statistics_values:
  "(student_scores self \<noteq> [] \<longrightarrow>
      total_students (get_statistics rnd self) = length (student_scores self)
      \<and> total_files (get_statistics rnd self) = length (processed_files self)
      \<and> avg_scores_per_student (get_statistics rnd self) =
          py_round_ndigits rnd
            (rnd (of_nat (sum_list (map (\<lambda>(k, i). length (info_scores i)) (student_scores self)))
                  / of_nat (length (student_scores self)))) 2
      \<and> students_with_all_scores (get_statistics rnd self) =
          length (filter (\<lambda>(k, i). length (info_scores i) = length (processed_files self))
                    (student_scores self)))
   \<and> (student_scores self \<noteq> [] \<longrightarrow>
      \<bar>avg_scores_per_student (get_statistics exact self)
        - of_nat (sum_list (map (\<lambda>(k, i). length (info_scores i)) (student_scores self)))
          / of_nat (length (student_scores self))\<bar> \<le> 1 / 200
      \<and> (\<exists>j::int. avg_scores_per_student (get_statistics exact self) = of_int j / 100))
   \<and> (student_scores self = [] \<longrightarrow>
      total_students (get_statistics rnd self) = 0
      \<and> avg_scores_per_student (get_statistics rnd self) = 0
      \<and> students_with_all_scores (get_statistics rnd self) = 0)
   \<and> ((master_list = None \<or> master_list = Some [])
        \<and> processed_files (fst (batch_add_results (init master_list) docs)) = [] \<longrightarrow>
      total_students (get_statistics rnd (fst (batch_add_results (init master_list) docs))) = 0
      \<and> total_files (get_statistics rnd (fst (batch_add_results (init master_list) docs))) = 0
      \<and> avg_scores_per_student
          (get_statistics rnd (fst (batch_add_results (init master_list) docs))) = 0
      \<and> students_with_all_scores
          (get_statistics rnd (fst (batch_add_results (init master_list) docs))) = 0)"
proof (intro conjI impI)
  assume ne: "student_scores self \<noteq> []"
  have g: "get_statistics r self =
    \<lparr>total_students = length (student_scores self),
     total_files = length (processed_files self),
     avg_scores_per_student = py_round_ndigits r
       (r (of_nat (sum_list (map (\<lambda>(k, i). length (info_scores i)) (student_scores self)))
            / of_nat (length (student_scores self)))) 2,
     students_with_all_scores =
       length (filter (\<lambda>(k, i). length (info_scores i) = length (processed_files self))
                 (student_scores self)),
     stats_processed_files = Some (processed_files self)\<rparr>" for r
    using ne by (simp add: get_statistics_def Let_def comp_def case_prod_unfold)
  show "total_students (get_statistics rnd self) = length (student_scores self)"
    and "total_files (get_statistics rnd self) = length (processed_files self)"
    and "avg_scores_per_student (get_statistics rnd self) =
          py_round_ndigits rnd
            (rnd (of_nat (sum_list (map (\<lambda>(k, i). length (info_scores i)) (student_scores self)))
                  / of_nat (length (student_scores self)))) 2"
    and "students_with_all_scores (get_statistics rnd self) =
          length (filter (\<lambda>(k, i). length (info_scores i) = length (processed_files self))
                    (student_scores self))"
    by (simp_all only: g statistics.simps)
  have avg: "avg_scores_per_student (get_statistics exact self) =
      py_round_ndigits exact
        (of_nat (sum_list (map (\<lambda>(k, i). length (info_scores i)) (student_scores self)))
            / of_nat (length (student_scores self))) 2"
    by (simp only: g statistics.simps exact_def)
  show "\<bar>avg_scores_per_student (get_statistics exact self)
        - of_nat (sum_list (map (\<lambda>(k, i). length (info_scores i)) (student_scores self)))
          / of_nat (length (student_scores self))\<bar> \<le> 1 / 200"
    unfolding avg by (rule round_two_decimals)
  show "\<exists>j::int. avg_scores_per_student (get_statistics exact self) = of_int j / 100"
    unfolding avg by (rule round_two_decimals)
next
  assume e: "student_scores self = []"
  show "total_students (get_statistics rnd self) = 0"
    and "avg_scores_per_student (get_statistics rnd self) = 0"
    and "students_with_all_scores (get_statistics rnd self) = 0"
    using e by (simp_all add: get_statistics_def)
next
  assume "(master_list = None \<or> master_list = Some [])
        \<and> processed_files (fst (batch_add_results (init master_list) docs)) = []"
  then have e: "student_scores (fst (batch_add_results (init master_list) docs)) = []"
    using no_roster_no_files_no_entities by blast
  show "total_students (get_statistics rnd (fst (batch_add_results (init master_list) docs))) = 0"
    and "total_files (get_statistics rnd (fst (batch_add_results (init master_list) docs))) = 0"
    and "avg_scores_per_student
          (get_statistics rnd (fst (batch_add_results (init master_list) docs))) = 0"
    and "students_with_all_scores
          (get_statistics rnd (fst (batch_add_results (init master_list) docs))) = 0"
    using e by (simp_all add: get_statistics_def)
qed

text \<open>
  Two entities with two and one score after two files: mean \<open>1.5\<close>, one entity complete;
  an aggregator without master list after one failed result; and a cleared aggregator.
\<close>

theorem statistics_values_witness:
  "total_students (get_statistics exact \<lparr>student_scores = [(Some ''A001'',
      \<lparr>info_order = Some 1, info_name = Some ''Ann'', info_scores = [Some 5, None]\<rparr>),
      (Some ''B002'', \<lparr>info_order = Some 2, info_name = Some ''Bob'',
      info_scores = [Some 7]\<rparr>)], processed_files = [''a.pdf'', ''b.pdf''],
      has_master_list = False\<rparr>) = 2
   \<and> total_files (get_statistics exact \<lparr>student_scores = [(Some ''A001'',
       \<lparr>info_order = Some 1, info_name = Some ''Ann'', info_scores = [Some 5, None]\<rparr>),
       (Some ''B002'', \<lparr>info_order = Some 2, info_name = Some ''Bob'',
       info_scores = [Some 7]\<rparr>)], processed_files = [''a.pdf'', ''b.pdf''],
       has_master_list = False\<rparr>) = 2
   \<and> avg_scores_per_student (get_statistics exact \<lparr>student_scores = [(Some ''A001'',
       \<lparr>info_order = Some 1, info_name = Some ''Ann'', info_scores = [Some 5, None]\<rparr>),
       (Some ''B002'', \<lparr>info_order = Some 2, info_name = Some ''Bob'',
       info_scores = [Some 7]\<rparr>)], processed_files = [''a.pdf'', ''b.pdf''],
       has_master_list = False\<rparr>) = 3 / 2
   \<and> students_with_all_scores (get_statistics exact \<lparr>student_scores = [(Some ''A001'',
       \<lparr>info_order = Some 1, info_name = Some ''Ann'', info_scores = [Some 5, None]\<rparr>),
       (Some ''B002'', \<lparr>info_order = Some 2, info_name = Some ''Bob'',
       info_scores = [Some 7]\<rparr>)], processed_files = [''a.pdf'', ''b.pdf''],
       has_master_list = False\<rparr>) = 1
   \<and> total_students (get_statistics exact (fst (batch_add_results (init None)
         [\<lparr>success = False, file_name = ''a.pdf'', data_scores = []\<rparr>]))) = 0
   \<and> total_files (get_statistics exact (fst (batch_add_results (init None)
         [\<lparr>success = False, file_name = ''a.pdf'', data_scores = []\<rparr>]))) = 0
   \<and> total_students (get_statistics exact (clear \<lparr>student_scores = [(Some ''A001'',
       \<lparr>info_order = Some 1, info_name = Some ''Ann'', info_scores = [Some 5, None]\<rparr>),
       (Some ''B002'', \<lparr>info_order = Some 2, info_name = Some ''Bob'',
       info_scores = [Some 7]\<rparr>)], processed_files = [''a.pdf'', ''b.pdf''],
       has_master_list = False\<rparr>)) = 0"
proof -
  have r: "py_round_ndigits exact (exact (3 / 2)) 2 = 3 / 2"
    by code_simp
  have p: "processed_files (fst (batch_add_results (init None)
         [\<lparr>success = False, file_name = ''a.pdf'', data_scores = []\<rparr>])) = []"
    by code_simp
  note z = statistics_values [where master_list = None and rnd = exact
      and docs = "[\<lparr>success = False, file_name = ''a.pdf'', data_scores = []\<rparr>]",
      THEN conjunct2, THEN conjunct2, THEN conjunct2, rule_format, OF conjI [OF disjI1 [OF refl] p]]
  have c: "student_scores (clear \<lparr>student_scores = [(Some ''A001'', \<lparr>info_order = Some 1,
      info_name = Some ''Ann'', info_scores = [Some 5, None]\<rparr>), (Some ''B002'',
      \<lparr>info_order = Some 2, info_name = Some ''Bob'', info_scores = [Some 7]\<rparr>)],
      processed_files = [''a.pdf'', ''b.pdf''], has_master_list = False\<rparr>) = []"
    by (simp add: clear_def)
  note e = statistics_values [of "clear \<lparr>student_scores = [(Some ''A001'',
      \<lparr>info_order = Some 1, info_name = Some ''Ann'', info_scores = [Some 5, None]\<rparr>),
      (Some ''B002'', \<lparr>info_order = Some 2, info_name = Some ''Bob'',
      info_scores = [Some 7]\<rparr>)], processed_files = [''a.pdf'', ''b.pdf''],
      has_master_list = False\<rparr>" exact,
      THEN conjunct2, THEN conjunct2, THEN conjunct1, rule_format, OF c]
  show ?thesis
    using statistics_values [of "\<lparr>student_scores = [(Some ''A001'', \<lparr>info_order = Some 1,
        info_name = Some ''Ann'', info_scores = [Some 5, None]\<rparr>), (Some ''B002'',
        \<lparr>info_order = Some 2, info_name = Some ''Bob'', info_scores = [Some 7]\<rparr>)],
        processed_files = [''a.pdf'', ''b.pdf''], has_master_list = False\<rparr>" exact] z e
    by (simp add: r)
qed

text \<open>
  Claim C5 as stated fails with a master list: with one student in it and no result
  merged, \<open>total_students\<close> and \<open>students_with_all_scores\<close> are \<open>1\<close>, not \<open>0\<close>.
\<close>

theorem statistics_values_counterexample:
  "processed_files (init (Some [\<lparr>ms_order = 1, ms_student_id = ''A001'', ms_name = ''Ann''\<rparr>])) = []
   \<and> total_students (get_statistics exact (init (Some [\<lparr>ms_order = 1, ms_student_id = ''A001'',
       ms_name = ''Ann''\<rparr>]))) = 1
   \<and> students_with_all_scores (get_statistics exact (init (Some [\<lparr>ms_order = 1,
       ms_student_id = ''A001'', ms_name = ''Ann''\<rparr>]))) = 1"
  by code_simp

section \<open>Properties of the tabular emitter\<close>

lemma str_nat_not_Nil: "str_nat n \<noteq> []"
  by (subst str_nat.simps) simp

lemma str_int_not_Nil: "str_int v \<noteq> []"
  by (simp add: str_int_def str_nat_not_Nil)

lemma length_student_row:
  "length (student_row m st) = 3 + max m (length (st_scores st))"
  by (simp add: student_row_def Let_def)

lemma take_student_row:
  "take 3 (student_row m st) =
     [opt_int_cell (st_order st), opt_str_cell (st_student_id st), opt_str_cell (st_name st)]"
  by (simp add: student_row_def Let_def)

lemma nth_student_row_score:
  assumes "j < length (st_scores st)"
  shows "student_row m st ! (3 + j) =
     (case st_scores st ! j of None \<Rightarrow> StrCell [] | Some v \<Rightarrow> IntCell v)"
  using assms by (simp add: student_row_def Let_def nth_append)

lemma nth_student_row_pad:
  assumes "length (st_scores st) \<le> j" and "j < m"
  shows "student_row m st ! (3 + j) = StrCell []"
  using assms by (simp add: student_row_def Let_def nth_append)

text \<open>
  Claim C9. For an empty list \<open>write\<close> returns \<open>False\<close> and writes nothing. Otherwise it
  writes a header and one row per entity, in the order of the list; the header and every
  row have \<open>3 + max_scores\<close> cells for the greatest number of scores of an entity; a row
  starts with the order, the student id and the name of its entity, goes on with its
  scores, a missing score as the empty field, and is padded with empty fields. The field
  of a present score is never empty.
\<close>

theorem write_table:
  "(data = [] \<longrightarrow> CSVWriter_write score_column_prefix data = None)
   \<and> (data \<noteq> [] \<longrightarrow>
      (\<exists>headers rows.
         CSVWriter_write score_column_prefix data = Some (headers # rows)
         \<and> length headers = 3 + Max (set (map (\<lambda>st. length (st_scores st)) data))
         \<and> length rows = length data
         \<and> (\<forall>i<length data.
              length (rows ! i) = 3 + Max (set (map (\<lambda>st. length (st_scores st)) data))
              \<and> take 3 (rows ! i) =
                  [opt_int_cell (st_order (data ! i)), opt_str_cell (st_student_id (data ! i)),
                   opt_str_cell (st_name (data ! i))]
              \<and> (\<forall>j<length (st_scores (data ! i)).
                    csv_field (rows ! i ! (3 + j)) =
                      (case st_scores (data ! i) ! j of None \<Rightarrow> [] | Some v \<Rightarrow> str_int v))
              \<and> (\<forall>j. length (st_scores (data ! i)) \<le> j
                       \<and> j < Max (set (map (\<lambda>st. length (st_scores st)) data)) \<longrightarrow>
                    csv_field (rows ! i ! (3 + j)) = []))))
   \<and> (\<forall>v. str_int v \<noteq> [])"
proof (intro conjI impI allI)
  show "data = [] \<Longrightarrow> CSVWriter_write score_column_prefix data = None"
    by (simp add: CSVWriter_write_def)
next
  fix v show "str_int v \<noteq> []" by (rule str_int_not_Nil)
next
  assume ne: "data \<noteq> []"
  define M where "M = Max (set (map (\<lambda>st. length (st_scores st)) data))"
  define headers where "headers =
    [StrCell header_order, StrCell header_student_id, StrCell header_name]
      @ map (\<lambda>i. StrCell (score_column_prefix @ str_int (int i + 1))) [0..<M]"
  define rows where "rows = map (student_row M) data"
  have w: "CSVWriter_write score_column_prefix data = Some (headers # rows)"
    using ne by (simp add: CSVWriter_write_def Let_def headers_def rows_def M_def)
  have le: "length (st_scores (data ! i)) \<le> M" if "i < length data" for i
    unfolding M_def using that by (intro Max_ge) auto
  have rows: "\<forall>i<length data.
      length (rows ! i) = 3 + M
      \<and> take 3 (rows ! i) =
          [opt_int_cell (st_order (data ! i)), opt_str_cell (st_student_id (data ! i)),
           opt_str_cell (st_name (data ! i))]
      \<and> (\<forall>j<length (st_scores (data ! i)).
            csv_field (rows ! i ! (3 + j)) =
              (case st_scores (data ! i) ! j of None \<Rightarrow> [] | Some v \<Rightarrow> str_int v))
      \<and> (\<forall>j. length (st_scores (data ! i)) \<le> j \<and> j < M \<longrightarrow>
            csv_field (rows ! i ! (3 + j)) = [])"
  proof (intro allI impI conjI)
    fix i assume i: "i < length data"
    then have r: "rows ! i = student_row M (data ! i)" by (simp add: rows_def)
    show "length (rows ! i) = 3 + M"
      using le [OF i] by (simp add: r length_student_row max_def)
    show "take 3 (rows ! i) =
          [opt_int_cell (st_order (data ! i)), opt_str_cell (st_student_id (data ! i)),
           opt_str_cell (st_name (data ! i))]"
      by (simp only: r take_student_row)
    {
      fix j assume "j < length (st_scores (data ! i))"
      then show "csv_field (rows ! i ! (3 + j)) =
              (case st_scores (data ! i) ! j of None \<Rightarrow> [] | Some v \<Rightarrow> str_int v)"
        by (simp add: r nth_student_row_score split: option.split)
    }
    {
      fix j assume "length (st_scores (data ! i)) \<le> j \<and> j < M"
      then show "csv_field (rows ! i ! (3 + j)) = []"
        by (simp add: r nth_student_row_pad)
    }
  qed
  have "length headers = 3 + M" by (simp add: headers_def)
  moreover have "length rows = length data" by (simp add: rows_def)
  ultimately show "\<exists>headers rows.
         CSVWriter_write score_column_prefix data = Some (headers # rows)
         \<and> length headers = 3 + Max (set (map (\<lambda>st. length (st_scores st)) data))
         \<and> length rows = length data
         \<and> (\<forall>i<length data.
              length (rows ! i) = 3 + Max (set (map (\<lambda>st. length (st_scores st)) data))
              \<and> take 3 (rows ! i) =
                  [opt_int_cell (st_order (data ! i)), opt_str_cell (st_student_id (data ! i)),
                   opt_str_cell (st_name (data ! i))]
              \<and> (\<forall>j<length (st_scores (data ! i)).
                    csv_field (rows ! i ! (3 + j)) =
                      (case st_scores (data ! i) ! j of None \<Rightarrow> [] | Some v \<Rightarrow> str_int v))
              \<and> (\<forall>j. length (st_scores (data ! i)) \<le> j
                       \<and> j < Max (set (map (\<lambda>st. length (st_scores st)) data)) \<longrightarrow>
                    csv_field (rows ! i ! (3 + j)) = []))"
    using w rows unfolding M_def [symmetric] by blast
qed

text \<open>
  Two entities with three scores (one missing, one zero) and one score: six cells per
  row, the zero written as \<open>0\<close>, the missing score and the padding as empty fields.
\<close>

theorem write_table_witness:
  "(\<exists>headers rows.
      CSVWriter_write ''s''
        [\<lparr>st_student_id = Some ''A001'', st_order = Some 1, st_name = Some ''Ann'',
            st_scores = [Some 5, None, Some 0]\<rparr>,
         \<lparr>st_student_id = Some ''B002'', st_order = Some 2, st_name = None, st_scores = [Some 7]\<rparr>]
      = Some (headers # rows)
      \<and> length headers = 6 \<and> length rows = 2
      \<and> length (rows ! 0) = 6 \<and> length (rows ! 1) = 6
      \<and> csv_field (rows ! 0 ! 4) = [] \<and> csv_field (rows ! 0 ! 5) = ''0''
      \<and> csv_field (rows ! 1 ! 3) = ''7'' \<and> csv_field (rows ! 1 ! 4) = []
      \<and> csv_field (rows ! 1 ! 5) = [])
   \<and> CSVWriter_write ''s'' [] = None"
proof -
  define data where "data =
        [\<lparr>st_student_id = Some ''A001'', st_order = Some 1, st_name = Some ''Ann'',
            st_scores = [Some 5, None, Some 0]\<rparr>,
         \<lparr>st_student_id = Some ''B002'', st_order = Some 2, st_name = None, st_scores = [Some 7]\<rparr>]"
  have M: "Max (set (map (\<lambda>st. length (st_scores st)) data)) = 3"
    by (simp add: data_def)
  have ne: "data \<noteq> []" by (simp add: data_def)
  from write_table [of data "''s''", THEN conjunct2, THEN conjunct1, rule_format, OF ne]
  obtain headers rows where w: "CSVWriter_write ''s'' data = Some (headers # rows)"
    and h: "length headers = 3 + 3" and r: "length rows = length data"
    and rows: "\<forall>i<length data.
              length (rows ! i) = 3 + 3
              \<and> take 3 (rows ! i) =
                  [opt_int_cell (st_order (data ! i)), opt_str_cell (st_student_id (data ! i)),
                   opt_str_cell (st_name (data ! i))]
              \<and> (\<forall>j<length (st_scores (data ! i)).
                    csv_field (rows ! i ! (3 + j)) =
                      (case st_scores (data ! i) ! j of None \<Rightarrow> [] | Some v \<Rightarrow> str_int v))
              \<and> (\<forall>j. length (st_scores (data ! i)) \<le> j \<and> j < 3 \<longrightarrow>
                    csv_field (rows ! i ! (3 + j)) = [])"
    unfolding M by blast
  have s0: "str_int 0 = ''0''" and s7: "str_int 7 = ''7''" by code_simp+
  have i0: "0 < length data" and i1: "1 < length data" by (simp_all add: data_def)
  note a0 = rows [rule_format, OF i0] and a1 = rows [rule_format, OF i1]
  note sc0 = a0 [THEN conjunct2, THEN conjunct2, THEN conjunct1, rule_format]
  note sc1 = a1 [THEN conjunct2, THEN conjunct2, THEN conjunct1, rule_format]
  note pad1 = a1 [THEN conjunct2, THEN conjunct2, THEN conjunct2, rule_format]
  have r0: "length (rows ! 0) = 6" "csv_field (rows ! 0 ! (3 + 1)) = []"
    "csv_field (rows ! 0 ! (3 + 2)) = ''0''"
    using a0 [THEN conjunct1] sc0 [of 1] sc0 [of 2] by (simp_all add: data_def s0)
  have r1: "length (rows ! 1) = 6" "csv_field (rows ! 1 ! (3 + 0)) = ''7''"
    "csv_field (rows ! 1 ! (3 + 1)) = []" "csv_field (rows ! 1 ! (3 + 2)) = []"
    using a1 [THEN conjunct1] sc1 [of 0] pad1 [of 1] pad1 [of 2] by (simp_all add: data_def s7)
  have e: "CSVWriter_write ''s'' [] = None"
    using write_table [of "[]" "''s''"] by simp
  show ?thesis
    using w h r r0 r1 e unfolding data_def [symmetric] by (simp add: data_def)
qed

end
